theory Spec2Isabelle
  imports Complex_Main "HOL-Library.AList" "HOL-Library.Word" "HOL-Library.Log_Nat"
begin

section \<open>JavaScript values used by the converter service\<close>

text \<open>
  A \<open>Buffer\<close> is a byte sequence. \<open>Date.now()\<close> is an integer number of milliseconds;
  every call site that reads the clock takes the reading as an argument.
\<close>

type_synonym byte = "8 word"

subsection \<open>Property lookup on plain objects\<close>

text \<open>
  The lookup tables of the service (\<open>global.tempFiles\<close>, the \<open>settings\<close> and
  \<open>mimeTypes\<close> literals) are plain objects: they are created with \<open>{}\<close> or an object
  literal, so their prototype is \<open>Object.prototype\<close>. The expression \<open>obj[key]\<close> returns
  the own property when there is one, otherwise the member of \<open>Object.prototype\<close> of that
  name when there is one, otherwise \<open>undefined\<close>. The members of \<open>Object.prototype\<close> are
  functions, or for \<open>__proto__\<close> the prototype object itself: all of them are truthy, and
  none of them has a property \<open>buffer\<close>, \<open>timestamp\<close> or \<open>mimeType\<close>.
\<close>

definition object_prototype_keys :: "string list" where
  "object_prototype_keys =
     [''constructor'', ''__defineGetter__'', ''__defineSetter__'', ''hasOwnProperty'',
      ''__lookupGetter__'', ''__lookupSetter__'', ''isPrototypeOf'', ''propertyIsEnumerable'',
      ''toString'', ''valueOf'', ''__proto__'', ''toLocaleString'']"

datatype 'a looked_up =
    Value 'a          \<comment> \<open>a value stored by the program\<close>
  | Builtin string    \<comment> \<open>the member of \<open>Object.prototype\<close> of that name\<close>
  | Undefined

definition get_prop :: "(string \<times> 'a) list \<Rightarrow> string \<Rightarrow> 'a looked_up" where
  "get_prop obj key =
     (case map_of obj key of
        Some v \<Rightarrow> Value v
      | None \<Rightarrow> if key \<in> set object_prototype_keys then Builtin key else Undefined)"

subsection \<open>Template literals: decimal rendering of integers\<close>

definition digit_char :: "nat \<Rightarrow> char" where
  "digit_char d = ''0123456789'' ! d"

fun string_of_nat :: "nat \<Rightarrow> string" where
  "string_of_nat n =
     (if n < 10 then [digit_char n] else string_of_nat (n div 10) @ [digit_char (n mod 10)])"

declare string_of_nat.simps [simp del]

definition string_of_int :: "int \<Rightarrow> string" where
  "string_of_int i = (if i < 0 then CHR ''-'' # string_of_nat (nat (- i)) else string_of_nat (nat i))"

section \<open>The temporary file store (\<open>global.tempFiles\<close>)\<close>

text \<open>
  A stored file, as both controllers write it. \<open>mimeType\<close> is what \<open>getMimeType\<close>
  returned (a string for every format of the table), or the literal \<open>'application/pdf'\<close>.
\<close>

record temp_file =
  buffer :: "byte list"
  mimeType :: "string looked_up"
  originalName :: string
  timestamp :: int

text \<open>
  \<open>global.tempFiles\<close> is \<open>undefined\<close> until the first call of \<open>storeForDownload\<close>, then
  an object whose own properties are kept in insertion order. \<open>timers\<close> holds the
  callbacks registered by \<open>setTimeout\<close> in the download route and not yet run: the time
  at which each becomes due and the file name it closes over.
\<close>

type_synonym files = "(string \<times> temp_file) list"

record server_state =
  tempFiles :: "files option"
  timers :: "(int \<times> string) list"

definition maxAge :: int where
  "maxAge = 10 * 60 * 1000"

text \<open>
  \<open>cleanupOldFiles\<close> (identical in \<open>ImageController\<close> and \<open>PDFController\<close>): the body of
  the \<open>forEach\<close> over \<open>Object.keys(global.tempFiles)\<close>, then the loop. Every key the loop
  visits is an own property when it is visited, since the body deletes only the key it is
  at; the \<open>None\<close> branch is there because HOL functions are total.
\<close>

definition cleanup_step :: "int \<Rightarrow> string \<Rightarrow> files \<Rightarrow> files" where
  "cleanup_step now filename fs =
     (case map_of fs filename of
        None \<Rightarrow> fs
      | Some f \<Rightarrow> if now - timestamp f > maxAge then AList.delete filename fs else fs)"

definition cleanupOldFiles :: "int \<Rightarrow> server_state \<Rightarrow> server_state" where
  "cleanupOldFiles now st =
     (case tempFiles st of
        None \<Rightarrow> st
      | Some fs \<Rightarrow> st\<lparr>tempFiles := Some (fold (cleanup_step now) (map fst fs) fs)\<rparr>)"

text \<open>What a sweep at time \<open>now\<close> is expected to leave of one entry of the store.\<close>

definition unexpired :: "int \<Rightarrow> temp_file option \<Rightarrow> temp_file option" where
  "unexpired now e =
     (case e of None \<Rightarrow> None | Some f \<Rightarrow> if now - timestamp f > maxAge then None else Some f)"

definition live_files :: "server_state \<Rightarrow> string \<Rightarrow> temp_file option" where
  "live_files st = (case tempFiles st of None \<Rightarrow> Map.empty | Some fs \<Rightarrow> map_of fs)"

subsection \<open>\<open>String.prototype.toLowerCase\<close> on ASCII\<close>

definition lower_char :: "char \<Rightarrow> char" where
  "lower_char c =
     (case map_of (zip ''ABCDEFGHIJKLMNOPQRSTUVWXYZ'' ''abcdefghijklmnopqrstuvwxyz'') c of
        Some l \<Rightarrow> l
      | None \<Rightarrow> c)"

definition toLowerCase :: "string \<Rightarrow> string" where
  "toLowerCase s = map lower_char s"

section \<open>Storing a result for download\<close>

definition mimeTypes :: "(string \<times> string) list" where
  "mimeTypes =
     [(''jpg'', ''image/jpeg''), (''jpeg'', ''image/jpeg''), (''png'', ''image/png''),
      (''webp'', ''image/webp''), (''bmp'', ''image/bmp''), (''gif'', ''image/gif''),
      (''tiff'', ''image/tiff'')]"

text \<open>\<open>mimeTypes[format.toLowerCase()] || 'application/octet-stream'\<close>\<close>

definition getMimeType :: "string \<Rightarrow> string looked_up" where
  "getMimeType format =
     (case get_prop mimeTypes (toLowerCase format) of
        Undefined \<Rightarrow> Value ''application/octet-stream''
      | v \<Rightarrow> v)"

text \<open>
  \<open>storeForDownload\<close> reads the clock three times: for the file name (\<open>t_name\<close>), for
  the record's \<open>timestamp\<close> (\<open>t_stamp\<close>), and inside \<open>cleanupOldFiles\<close> (\<open>t_sweep\<close>).
  The assignment \<open>global.tempFiles[filename] = {...}\<close> replaces the record of an
  existing own property and appends a new one otherwise. The unused \<open>metadata\<close>
  parameter of the image controller is left out.
\<close>

definition ImageController_storeForDownload ::
  "int \<Rightarrow> int \<Rightarrow> int \<Rightarrow> byte list \<Rightarrow> string \<Rightarrow> server_state \<Rightarrow> string \<times> server_state" where
  "ImageController_storeForDownload t_name t_stamp t_sweep buf format st =
     (let fs = (case tempFiles st of None \<Rightarrow> [] | Some fs \<Rightarrow> fs);
          filename = ''converted_'' @ string_of_int t_name @ ''.'' @ format;
          mime = getMimeType format;
          fs' = AList.update filename
                  \<lparr>buffer = buf, mimeType = mime,
                   originalName = ''converted_image.'' @ format, timestamp = t_stamp\<rparr> fs;
          st' = cleanupOldFiles t_sweep (st\<lparr>tempFiles := Some fs'\<rparr>)
      in (''/api/convert/download/'' @ filename, st'))"

definition PDFController_storeForDownload ::
  "int \<Rightarrow> int \<Rightarrow> int \<Rightarrow> byte list \<Rightarrow> server_state \<Rightarrow> string \<times> server_state" where
  "PDFController_storeForDownload t_name t_stamp t_sweep buf st =
     (let fs = (case tempFiles st of None \<Rightarrow> [] | Some fs \<Rightarrow> fs);
          filename = ''compressed_'' @ string_of_int t_name @ ''.pdf'';
          fs' = AList.update filename
                  \<lparr>buffer = buf, mimeType = Value ''application/pdf'',
                   originalName = ''compressed_document.pdf'', timestamp = t_stamp\<rparr> fs;
          st' = cleanupOldFiles t_sweep (st\<lparr>tempFiles := Some fs'\<rparr>)
      in (''/api/convert/download/'' @ filename, st'))"

section \<open>The download route\<close>

text \<open>
  What the handler of \<open>GET /download/:filename\<close> answers: either the headers given to
  \<open>res.set\<close> and the buffer given to \<open>res.send\<close> (status 200), or
  \<open>res.status(n).json({error: msg})\<close>.
\<close>

datatype response =
    Sent "string looked_up" string nat "byte list"
      \<comment> \<open>Content-Type, Content-Disposition, Content-Length, body\<close>
  | Json nat string

fun status :: "response \<Rightarrow> nat" where
  "status (Sent _ _ _ _) = 200"
| "status (Json n _) = n"

text \<open>
  \<open>fileData = global.tempFiles && global.tempFiles[filename]\<close>. When the name is not
  an own property but a member of \<open>Object.prototype\<close>, \<open>fileData\<close> is truthy and
  \<open>fileData.buffer\<close> is \<open>undefined\<close>: evaluating \<open>fileData.buffer.length\<close> for the headers
  throws a \<open>TypeError\<close>, which the \<open>catch\<close> block answers with status 500; no timer is
  set. Otherwise the handler sends the file and registers the deferred delete with
  \<open>setTimeout(..., 60000)\<close>; \<open>now\<close> is the time of the call.
\<close>

definition download :: "int \<Rightarrow> string \<Rightarrow> server_state \<Rightarrow> response \<times> server_state" where
  "download now filename st =
     (case (case tempFiles st of None \<Rightarrow> Undefined | Some fs \<Rightarrow> get_prop fs filename) of
        Undefined \<Rightarrow> (Json 404 ''File not found or expired'', st)
      | Builtin m \<Rightarrow> (Json 500 ''Failed to download file'', st)
      | Value f \<Rightarrow>
          (Sent (mimeType f) (''attachment; filename='' @ [CHR 0x22] @ originalName f @ [CHR 0x22])
             (length (buffer f)) (buffer f),
           st\<lparr>timers := timers st @ [(now + 60000, filename)]\<rparr>))"

text \<open>
  The timer callback:
  \<open>if (global.tempFiles && global.tempFiles[filename]) delete global.tempFiles[filename]\<close>.
  \<open>delete\<close> removes an own property and does nothing for an inherited one.
\<close>

definition fire :: "string \<Rightarrow> server_state \<Rightarrow> server_state" where
  "fire filename st =
     (case tempFiles st of
        None \<Rightarrow> st
      | Some fs \<Rightarrow>
          (case get_prop fs filename of
             Undefined \<Rightarrow> st
           | _ \<Rightarrow> st\<lparr>tempFiles := Some (AList.delete filename fs)\<rparr>))"

text \<open>The event loop at time \<open>now\<close>: every timer that is due runs, in the order set.\<close>

definition due_at :: "int \<Rightarrow> int \<times> string \<Rightarrow> bool" where
  "due_at now tm = (fst tm \<le> now)"

definition run_timers :: "int \<Rightarrow> server_state \<Rightarrow> server_state" where
  "run_timers now st =
     fold fire (map snd (filter (due_at now) (timers st)))
       (st\<lparr>timers := filter (\<lambda>tm. \<not> due_at now tm) (timers st)\<rparr>)"

definition initial_state :: server_state where
  "initial_state = \<lparr>tempFiles = None, timers = []\<rparr>"

section \<open>Compression settings\<close>

subsection \<open>PDF converter\<close>

record pdf_settings =
  useObjectStreams :: bool
  objectStreamCompressionMethod :: string
  scaleImages :: bool
  removeAnnotations :: bool
  removeDuplicateObjects :: bool

definition medium_settings :: pdf_settings where
  "medium_settings =
     \<lparr>useObjectStreams = True, objectStreamCompressionMethod = ''deflate'',
      scaleImages = False, removeAnnotations = False, removeDuplicateObjects = True\<rparr>"

definition pdf_settings_table :: "(string \<times> pdf_settings) list" where
  "pdf_settings_table =
     [(''low'', \<lparr>useObjectStreams = False, objectStreamCompressionMethod = ''deflate'',
                 scaleImages = False, removeAnnotations = False,
                 removeDuplicateObjects = False\<rparr>),
      (''medium'', medium_settings),
      (''high'', \<lparr>useObjectStreams = True, objectStreamCompressionMethod = ''deflate'',
                 scaleImages = True, removeAnnotations = True,
                 removeDuplicateObjects = True\<rparr>)]"

text \<open>
  \<open>settings[level] || settings.medium\<close>: every object and function is truthy, so the
  result is the own property of that name, else the member of \<open>Object.prototype\<close> of that
  name, else the own property \<open>medium\<close> of the literal.
\<close>

datatype pdf_settings_value = Settings pdf_settings | Inherited string

definition PDFConverter_getCompressionSettings :: "string \<Rightarrow> pdf_settings_value" where
  "PDFConverter_getCompressionSettings level =
     (case get_prop pdf_settings_table level of
        Value s \<Rightarrow> Settings s
      | Builtin m \<Rightarrow> Inherited m
      | Undefined \<Rightarrow> Settings medium_settings)"

subsection \<open>Image converter\<close>

datatype option_value = Num int | Bool bool | Str string

type_synonym image_options = "(string \<times> option_value) list"

definition image_settings_table :: "(string \<times> (string \<times> image_options) list) list" where
  "image_settings_table =
     [(''jpg'',
        [(''low'', [(''quality'', Num 90), (''progressive'', Bool True)]),
         (''medium'', [(''quality'', Num 75), (''progressive'', Bool True)]),
         (''high'', [(''quality'', Num 60), (''progressive'', Bool True), (''mozjpeg'', Bool True)])]),
      (''jpeg'',
        [(''low'', [(''quality'', Num 90), (''progressive'', Bool True)]),
         (''medium'', [(''quality'', Num 75), (''progressive'', Bool True)]),
         (''high'', [(''quality'', Num 60), (''progressive'', Bool True), (''mozjpeg'', Bool True)])]),
      (''png'',
        [(''low'', [(''compressionLevel'', Num 3), (''adaptiveFiltering'', Bool False)]),
         (''medium'', [(''compressionLevel'', Num 6), (''adaptiveFiltering'', Bool True)]),
         (''high'', [(''compressionLevel'', Num 9), (''adaptiveFiltering'', Bool True),
                     (''palette'', Bool True)])]),
      (''webp'',
        [(''low'', [(''quality'', Num 90), (''effort'', Num 2)]),
         (''medium'', [(''quality'', Num 75), (''effort'', Num 4)]),
         (''high'', [(''quality'', Num 60), (''effort'', Num 6), (''lossless'', Bool False)])]),
      (''tiff'',
        [(''low'', [(''compression'', Str ''lzw'')]),
         (''medium'', [(''compression'', Str ''deflate'')]),
         (''high'', [(''compression'', Str ''jpeg''), (''quality'', Num 75)])])]"

text \<open>
  What \<open>getCompressionSettings\<close> of the image converter can return: an options object of
  the table or the empty object \<open>{}\<close>; a member of \<open>Object.prototype\<close>, found under the
  level's name in a format's table; or, when the format's own name resolves to a member of
  \<open>Object.prototype\<close> (\<open>constructor\<close>, \<open>__proto__\<close>), a truthy property of that built-in
  object.
\<close>

datatype image_settings_value =
    Options image_options
  | Prototype_member string
  | Builtin_property string string

text \<open>
  The properties of the built-in objects are the runtime's: \<open>builtin_get f p\<close> stands for
  the evaluation of \<open>Object.prototype[f][p]\<close>, which throws (\<open>Inl\<close> the message) or yields
  a value that is truthy or not.
\<close>

type_synonym builtin_get = "string \<Rightarrow> string \<Rightarrow> string + bool"

text \<open>
  \<open>settings[format.toLowerCase()]?.[level] || settings[format.toLowerCase()]?.medium || {}\<close>.
  \<open>Inl\<close> is a thrown error.
\<close>

definition ImageConverter_getCompressionSettings ::
  "builtin_get \<Rightarrow> string \<Rightarrow> string \<Rightarrow> string + image_settings_value" where
  "ImageConverter_getCompressionSettings rt format level =
     (case get_prop image_settings_table (toLowerCase format) of
        Undefined \<Rightarrow> Inr (Options [])
      | Value tbl \<Rightarrow>
          (case get_prop tbl level of
             Value opts \<Rightarrow> Inr (Options opts)
           | Builtin m \<Rightarrow> Inr (Prototype_member m)
           | Undefined \<Rightarrow>
               (case get_prop tbl ''medium'' of
                  Value opts \<Rightarrow> Inr (Options opts)
                | Builtin m \<Rightarrow> Inr (Prototype_member m)
                | Undefined \<Rightarrow> Inr (Options [])))
      | Builtin f \<Rightarrow>
          (case rt f level of
             Inl e \<Rightarrow> Inl e
           | Inr True \<Rightarrow> Inr (Builtin_property f level)
           | Inr False \<Rightarrow>
               (case rt f ''medium'' of
                  Inl e \<Rightarrow> Inl e
                | Inr True \<Rightarrow> Inr (Builtin_property f ''medium'')
                | Inr False \<Rightarrow> Inr (Options []))))"

text \<open>The routes pass \<open>compressionLevel || 'medium'\<close>: a missing or empty level is \<open>medium\<close>.\<close>

definition level_or_medium :: "string option \<Rightarrow> string" where
  "level_or_medium compressionLevel =
     (case compressionLevel of None \<Rightarrow> ''medium'' | Some l \<Rightarrow> if l = [] then ''medium'' else l)"

section \<open>Numbers\<close>

text \<open>
  A JavaScript number is an IEEE 754 binary64 value; the finite ones are rationals.
  \<open>fl\<close> rounds a rational to the nearest binary64 value, ties to even, for magnitudes
  in the range of the normal numbers (no overflow, no subnormal results), which covers
  every number the service computes from buffer lengths, page counts and progress
  values. \<open>ilog2 x\<close> is the exponent of the binade of a positive \<open>x\<close>.
\<close>

definition pow2 :: "int \<Rightarrow> rat" where
  "pow2 e = (if 0 \<le> e then 2 ^ nat e else 1 / 2 ^ nat (- e))"

definition ilog2 :: "rat \<Rightarrow> int" where
  "ilog2 x = (if 1 \<le> x then bitlen \<lfloor>x\<rfloor> - 1 else - bitlen (\<lceil>1 / x\<rceil> - 1))"

definition round_half_even :: "rat \<Rightarrow> int" where
  "round_half_even y =
     (let f = \<lfloor>y\<rfloor>; r = y - of_int f
      in if r < 1 / 2 then f else if 1 / 2 < r then f + 1 else if even f then f else f + 1)"

definition fl :: "rat \<Rightarrow> rat" where
  "fl x =
     (if x = 0 then 0
      else let e = ilog2 \<bar>x\<bar> - 52
           in sgn x * of_int (round_half_even (\<bar>x\<bar> / pow2 e)) * pow2 e)"

definition js_add :: "rat \<Rightarrow> rat \<Rightarrow> rat" where
  "js_add a b = fl (a + b)"

definition js_mul :: "rat \<Rightarrow> rat \<Rightarrow> rat" where
  "js_mul a b = fl (a * b)"

text \<open>Division by a divisor that is not zero.\<close>

definition js_div :: "rat \<Rightarrow> rat \<Rightarrow> rat" where
  "js_div a b = fl (a / b)"

text \<open>
  \<open>x.toFixed(1)\<close> for a finite \<open>x\<close> of magnitude below \<open>10^21\<close>: the sign, then the integer
  \<open>n\<close> for which \<open>n / 10\<close> is nearest to \<open>|x|\<close> (the larger one of two), written with one
  digit after the point.
\<close>

definition toFixed1 :: "rat \<Rightarrow> string" where
  "toFixed1 x =
     (let n = nat \<lfloor>\<bar>x\<bar> * 10 + 1 / 2\<rfloor>
      in (if x < 0 then [CHR ''-''] else [])
         @ string_of_nat (n div 10) @ [CHR ''.''] @ [digit_char (n mod 10)])"

text \<open>
  \<open>((originalSize - convertedSize) / originalSize * 100).toFixed(1) + '%'\<close>, as both
  controllers compute it. The sizes are buffer lengths, so the difference is exact. For an
  empty input the quotient is \<open>NaN\<close> or \<open>-Infinity\<close>, which \<open>toFixed\<close> prints by name.
\<close>

definition compression_ratio :: "nat \<Rightarrow> nat \<Rightarrow> string" where
  "compression_ratio originalSize convertedSize =
     (if originalSize = 0 then (if convertedSize = 0 then ''NaN'' else ''-Infinity'')
      else toFixed1 (js_mul (js_div (of_int (int originalSize - int convertedSize))
                               (of_nat originalSize)) 100))
     @ ''%''"

section \<open>Progress events and the WebSocket clients\<close>

record progress_event =
  progress :: rat
  message :: string
  error :: "string option"

text \<open>The message sent is \<open>JSON.stringify({type: 'progress', data})\<close>.\<close>

datatype ws_message = Progress_message progress_event

text \<open>
  A connected client of the WebSocket server: its \<open>readyState\<close>, what has been handed to
  its \<open>send\<close> method, and what that method does when called: \<open>send_error\<close> is the
  message of the error it throws, if it throws. \<open>send\<close> belongs to the \<open>ws\<close> library,
  whose sockets throw from \<open>send\<close> only while they are still connecting and report the
  errors of a write on an open socket later, through a callback or an event; the predicate
  \<open>send_ok\<close> below says so of a client.
\<close>

record client =
  readyState :: nat
  send_error :: "string option"
  received :: "ws_message list"

text \<open>
  \<open>wss.clients.forEach(client => { if (client.readyState === 1) client.send(message) })\<close>:
  the result is the error that ended the loop, if one did, and the clients afterwards.
\<close>

fun send_each :: "ws_message \<Rightarrow> client list \<Rightarrow> string option \<times> client list" where
  "send_each msg [] = (None, [])"
| "send_each msg (c # cs) =
     (if readyState c = 1 then
        (case send_error c of
           Some e \<Rightarrow> (Some e, c # cs)
         | None \<Rightarrow>
             (case send_each msg cs of
                (r, cs') \<Rightarrow> (r, c\<lparr>received := received c @ [msg]\<rparr> # cs')))
      else (case send_each msg cs of (r, cs') \<Rightarrow> (r, c # cs')))"

text \<open>
  The state the controllers work on: the clients of the WebSocket server (\<open>None\<close> when
  \<open>wss\<close> or \<open>wss.clients\<close> is missing), the store, and a history of the events given to
  \<open>broadcastProgress\<close>, kept for the statements about what a request publishes.
\<close>

record world =
  wss :: "client list option"
  server :: server_state
  published :: "progress_event list"

text \<open>
  A computation runs in a world and returns a value or throws: \<open>Inl\<close> carries the
  \<open>message\<close> of the error thrown.
\<close>

type_synonym 'a prog = "world \<Rightarrow> (string + 'a) \<times> world"

definition pure :: "'a \<Rightarrow> 'a prog" where
  "pure x = (\<lambda>w. (Inr x, w))"

definition raise :: "string \<Rightarrow> 'a prog" where
  "raise e = (\<lambda>w. (Inl e, w))"

definition and_then :: "'a prog \<Rightarrow> ('a \<Rightarrow> 'b prog) \<Rightarrow> 'b prog" where
  "and_then m f = (\<lambda>w. case m w of (Inl e, w') \<Rightarrow> (Inl e, w') | (Inr x, w') \<Rightarrow> f x w')"

definition try_catch :: "'a prog \<Rightarrow> (string \<Rightarrow> 'a prog) \<Rightarrow> 'a prog" where
  "try_catch m h = (\<lambda>w. case m w of (Inl e, w') \<Rightarrow> h e w' | (Inr x, w') \<Rightarrow> (Inr x, w'))"

text \<open>The outcome of a call into a library: a rejection or exception, or a value.\<close>

definition lift :: "string + 'a \<Rightarrow> 'a prog" where
  "lift r = (\<lambda>w. (r, w))"

text \<open>\<open>broadcastProgress(wss, data)\<close> (identical in both controllers).\<close>

definition broadcastProgress :: "progress_event \<Rightarrow> unit prog" where
  "broadcastProgress data w =
     (let w1 = w\<lparr>published := published w @ [data]\<rparr>
      in case wss w of
           None \<Rightarrow> (Inr (), w1)
         | Some cs \<Rightarrow>
             (case send_each (Progress_message data) cs of
                (None, cs') \<Rightarrow> (Inr (), w1\<lparr>wss := Some cs'\<rparr>)
              | (Some e, cs') \<Rightarrow> (Inl e, w1\<lparr>wss := Some cs'\<rparr>)))"

text \<open>\<open>if (progressCallback) progressCallback(progress, message)\<close>\<close>

type_synonym progress_callback = "(rat \<Rightarrow> string \<Rightarrow> unit prog) option"

definition call_back :: "progress_callback \<Rightarrow> rat \<Rightarrow> string \<Rightarrow> unit prog" where
  "call_back cb p m = (case cb of None \<Rightarrow> pure () | Some f \<Rightarrow> f p m)"

section \<open>The image converter and its controller\<close>

text \<open>
  The \<open>sharp\<close> library is outside the repository. Its calls are parameters:
  \<open>sharp_open\<close> is the error \<open>sharp(buffer)\<close> throws, if it throws; \<open>sharp_metadata\<close> the
  outcome of \<open>sharp(buffer).metadata()\<close>; \<open>sharp_format\<close> the error the format method
  (\<open>.jpeg(settings)\<close>, \<open>.bmp()\<close>, ...) throws on the instance made from the buffer, if it
  throws; \<open>sharp_toBuffer\<close> the outcome of \<open>toBuffer()\<close>.
\<close>

datatype encoder =
    Jpeg image_settings_value
  | Png image_settings_value
  | Webp image_settings_value
  | Bmp
  | Gif
  | Tiff image_settings_value

record metadata =
  meta_format :: string
  width :: nat
  height :: nat

record sharp_lib =
  sharp_open :: "byte list \<Rightarrow> string option"
  sharp_metadata :: "byte list \<Rightarrow> string + metadata"
  sharp_format :: "byte list \<Rightarrow> encoder \<Rightarrow> string option"
  sharp_toBuffer :: "byte list \<Rightarrow> encoder \<Rightarrow> string + byte list"

definition throws :: "string option \<Rightarrow> unit prog" where
  "throws e = lift (case e of Some m \<Rightarrow> Inl m | None \<Rightarrow> Inr ())"

text \<open>The \<open>switch (outputFormat.toLowerCase())\<close> of \<open>convert\<close>.\<close>

definition choose_encoder :: "string \<Rightarrow> image_settings_value \<Rightarrow> string + encoder" where
  "choose_encoder outputFormat settings =
     (let f = toLowerCase outputFormat
      in if f = ''jpg'' \<or> f = ''jpeg'' then Inr (Jpeg settings)
         else if f = ''png'' then Inr (Png settings)
         else if f = ''webp'' then Inr (Webp settings)
         else if f = ''bmp'' then Inr Bmp
         else if f = ''gif'' then Inr Gif
         else if f = ''tiff'' then Inr (Tiff settings)
         else Inl (''Unsupported output format: '' @ outputFormat))"

text \<open>\<open>ImageConverter.convert\<close>; the \<open>console.log\<close> calls are left out.\<close>

definition ImageConverter_convert ::
  "builtin_get \<Rightarrow> sharp_lib \<Rightarrow> progress_callback \<Rightarrow> byte list \<Rightarrow> string \<Rightarrow> string
     \<Rightarrow> byte list prog" where
  "ImageConverter_convert rt lib cb buf outputFormat compressionLevel =
     try_catch
       (and_then (throws (sharp_open lib buf)) (\<lambda>_.
        and_then (call_back cb 10 ''Initializing conversion...'') (\<lambda>_.
        and_then (lift (ImageConverter_getCompressionSettings rt outputFormat compressionLevel))
          (\<lambda>compressionSettings.
        and_then (call_back cb 30 ''Applying compression settings...'') (\<lambda>_.
        and_then (lift (choose_encoder outputFormat compressionSettings)) (\<lambda>enc.
        and_then (throws (sharp_format lib buf enc)) (\<lambda>_.
        and_then (call_back cb 60 ''Converting image...'') (\<lambda>_.
        and_then (lift (sharp_toBuffer lib buf enc)) (\<lambda>convertedBuffer.
        and_then (call_back cb 90 ''Finalizing conversion...'') (\<lambda>_.
        and_then (call_back cb 100 ''Conversion complete!'') (\<lambda>_.
        pure convertedBuffer)))))))))))
       (\<lambda>e. raise (''Failed to convert image: '' @ e))"

record image_result =
  downloadUrl :: string
  outputFormat :: string
  originalSize :: nat
  convertedSize :: nat
  compressionRatio :: string

definition store_image :: "int \<Rightarrow> int \<Rightarrow> int \<Rightarrow> byte list \<Rightarrow> string \<Rightarrow> string prog" where
  "store_image t_name t_stamp t_sweep buf format w =
     (case ImageController_storeForDownload t_name t_stamp t_sweep buf format (server w) of
        (url, s') \<Rightarrow> (Inr url, w\<lparr>server := s'\<rparr>))"

text \<open>
  \<open>ImageController.convertImage\<close>. The three clock readings are those of the call of
  \<open>storeForDownload\<close>.
\<close>

definition image_relay :: "rat \<Rightarrow> string \<Rightarrow> unit prog" where
  "image_relay p m =
     broadcastProgress \<lparr>progress = js_add 30 (js_mul p (fl (6 / 10))), message = m, error = None\<rparr>"

definition ImageController_convertImage ::
  "builtin_get \<Rightarrow> sharp_lib \<Rightarrow> int \<Rightarrow> int \<Rightarrow> int \<Rightarrow> byte list \<Rightarrow> string \<Rightarrow> string
     \<Rightarrow> image_result prog" where
  "ImageController_convertImage rt lib t_name t_stamp t_sweep buf format compressionLevel =
     try_catch
       (and_then (broadcastProgress
            \<lparr>progress = 10, message = ''Analyzing image...'', error = None\<rparr>) (\<lambda>_.
        and_then (lift (sharp_metadata lib buf)) (\<lambda>metadata.
        and_then (broadcastProgress
            \<lparr>progress = 30, message = ''Starting conversion...'', error = None\<rparr>) (\<lambda>_.
        and_then (ImageConverter_convert rt lib (Some image_relay) buf format compressionLevel)
          (\<lambda>convertedBuffer.
        and_then (broadcastProgress
            \<lparr>progress = 90, message = ''Preparing download...'', error = None\<rparr>) (\<lambda>_.
        and_then (store_image t_name t_stamp t_sweep convertedBuffer format) (\<lambda>url.
        and_then (broadcastProgress
            \<lparr>progress = 100, message = ''Conversion completed!'', error = None\<rparr>) (\<lambda>_.
        pure \<lparr>downloadUrl = url, outputFormat = format, originalSize = length buf,
              convertedSize = length convertedBuffer,
              compressionRatio = compression_ratio (length buf) (length convertedBuffer)\<rparr>))))))))
       (\<lambda>e. and_then (broadcastProgress
                \<lparr>progress = 0, message = ''Conversion failed'', error = Some e\<rparr>) (\<lambda>_.
            raise (''Image conversion failed: '' @ e)))"

section \<open>The PDF converter and its controller\<close>

text \<open>
  The \<open>pdf-lib\<close> library is outside the repository. \<open>pdf_load\<close> is the outcome of
  \<open>PDFDocument.load(buffer)\<close>, as the number of pages of the document; \<open>pdf_save\<close> the
  outcome of \<open>save\<close> on the document loaded from the buffer, with the options
  \<open>useObjectStreams\<close> and \<open>objectStreamCompressionMethod\<close> as given.
\<close>

record pdf_lib =
  pdf_load :: "byte list \<Rightarrow> string + nat"
  pdf_save :: "byte list \<Rightarrow> bool looked_up \<Rightarrow> string looked_up \<Rightarrow> string + byte list"

text \<open>
  \<open>settings.useObjectStreams\<close> and the like: no member of \<open>Object.prototype\<close> has such a
  property.
\<close>

definition setting :: "(pdf_settings \<Rightarrow> 'a) \<Rightarrow> pdf_settings_value \<Rightarrow> 'a looked_up" where
  "setting field v = (case v of Settings s \<Rightarrow> Value (field s) | Inherited m \<Rightarrow> Undefined)"

text \<open>
  \<open>optimizePage\<close> and \<open>optimizeDocument\<close> only write to the console, inside a
  \<open>try\<close> whose \<open>catch\<close> swallows every error.
\<close>

definition optimizePage :: "pdf_settings_value \<Rightarrow> unit prog" where
  "optimizePage settings = pure ()"

definition optimizeDocument :: "pdf_settings_value \<Rightarrow> unit prog" where
  "optimizeDocument settings = pure ()"

text \<open>The \<open>for\<close> loop of \<open>applyCompression\<close>, over the page indices still to do.\<close>

fun process_pages :: "progress_callback \<Rightarrow> nat \<Rightarrow> pdf_settings_value \<Rightarrow> nat list \<Rightarrow> unit prog" where
  "process_pages cb totalPages settings [] = pure ()"
| "process_pages cb totalPages settings (i # rest) =
     and_then (call_back cb (js_add 50 (js_mul (js_div (of_nat i) (of_nat totalPages)) 40))
                 (''Processing page '' @ string_of_nat (i + 1) @ '' of ''
                    @ string_of_nat totalPages @ ''...'')) (\<lambda>_.
     and_then (optimizePage settings) (\<lambda>_.
     process_pages cb totalPages settings rest))"

definition applyCompression :: "progress_callback \<Rightarrow> nat \<Rightarrow> pdf_settings_value \<Rightarrow> unit prog" where
  "applyCompression cb totalPages settings =
     try_catch
       (and_then (process_pages cb totalPages settings [0..<totalPages]) (\<lambda>_.
        and_then (call_back cb 85 ''Applying document optimizations...'') (\<lambda>_.
        optimizeDocument settings)))
       (\<lambda>e. raise (''Failed to apply compression: '' @ e))"

text \<open>\<open>PDFConverter.compress\<close>; its \<open>pageCount\<close> parameter is not used.\<close>

definition PDFConverter_compress ::
  "pdf_lib \<Rightarrow> progress_callback \<Rightarrow> byte list \<Rightarrow> string \<Rightarrow> byte list prog" where
  "PDFConverter_compress lib cb buf compressionLevel =
     try_catch
       (and_then (call_back cb 10 ''Loading PDF document...'') (\<lambda>_.
        and_then (lift (pdf_load lib buf)) (\<lambda>pages.
        and_then (call_back cb 30 ''Analyzing document structure...'') (\<lambda>_.
        and_then (pure (PDFConverter_getCompressionSettings compressionLevel)) (\<lambda>settings.
        and_then (call_back cb 50 ''Applying compression...'') (\<lambda>_.
        and_then (applyCompression cb pages settings) (\<lambda>_.
        and_then (call_back cb 90 ''Generating compressed PDF...'') (\<lambda>_.
        and_then (lift (pdf_save lib buf (setting useObjectStreams settings)
                          (setting objectStreamCompressionMethod settings))) (\<lambda>compressedBuffer.
        and_then (call_back cb 100 ''Compression complete!'') (\<lambda>_.
        pure compressedBuffer))))))))))
       (\<lambda>e. raise (''Failed to compress PDF: '' @ e))"

record pdf_result =
  pdf_downloadUrl :: string
  pdf_originalSize :: nat
  compressedSize :: nat
  pdf_compressionRatio :: string

definition store_pdf :: "int \<Rightarrow> int \<Rightarrow> int \<Rightarrow> byte list \<Rightarrow> string prog" where
  "store_pdf t_name t_stamp t_sweep buf w =
     (case PDFController_storeForDownload t_name t_stamp t_sweep buf (server w) of
        (url, s') \<Rightarrow> (Inr url, w\<lparr>server := s'\<rparr>))"

definition pdf_relay :: "rat \<Rightarrow> string \<Rightarrow> unit prog" where
  "pdf_relay p m =
     broadcastProgress \<lparr>progress = js_add 20 (js_mul p (fl (7 / 10))), message = m, error = None\<rparr>"

text \<open>\<open>PDFController.compressPDF\<close>\<close>

definition PDFController_compressPDF ::
  "pdf_lib \<Rightarrow> int \<Rightarrow> int \<Rightarrow> int \<Rightarrow> byte list \<Rightarrow> string \<Rightarrow> pdf_result prog" where
  "PDFController_compressPDF lib t_name t_stamp t_sweep buf compressionLevel =
     try_catch
       (and_then (broadcastProgress
            \<lparr>progress = 10, message = ''Analyzing PDF...'', error = None\<rparr>) (\<lambda>_.
        and_then (lift (pdf_load lib buf)) (\<lambda>pageCount.
        and_then (broadcastProgress
            \<lparr>progress = 20,
             message = ''Processing PDF with '' @ string_of_nat pageCount @ '' pages...'',
             error = None\<rparr>) (\<lambda>_.
        and_then (PDFConverter_compress lib (Some pdf_relay) buf compressionLevel)
          (\<lambda>compressedBuffer.
        and_then (broadcastProgress
            \<lparr>progress = 90, message = ''Preparing download...'', error = None\<rparr>) (\<lambda>_.
        and_then (store_pdf t_name t_stamp t_sweep compressedBuffer) (\<lambda>url.
        and_then (broadcastProgress
            \<lparr>progress = 100, message = ''Compression completed!'', error = None\<rparr>) (\<lambda>_.
        pure \<lparr>pdf_downloadUrl = url, pdf_originalSize = length buf,
              compressedSize = length compressedBuffer,
              pdf_compressionRatio = compression_ratio (length buf) (length compressedBuffer)\<rparr>))))))))
       (\<lambda>e. and_then (broadcastProgress
                \<lparr>progress = 0, message = ''Compression failed'', error = Some e\<rparr>) (\<lambda>_.
            raise (''PDF compression failed: '' @ e)))"

section \<open>The conversion routes\<close>

text \<open>
  The fields of the request body, each present or not, and the answer of a route:
  \<open>res.json\<close> of a result (status 200) or \<open>res.status(n).json({error: msg})\<close>.
  \<open>decode\<close> is \<open>Buffer.from(fileData, 'base64')\<close>. A missing or empty string is falsy.
\<close>

record request_body =
  req_outputFormat :: "string option"
  req_compressionLevel :: "string option"
  req_fileData :: "string option"

datatype 'r api_response = Ok_json 'r | Error_json nat string

fun api_status :: "'r api_response \<Rightarrow> nat" where
  "api_status (Ok_json _) = 200"
| "api_status (Error_json n _) = n"

definition truthy :: "string option \<Rightarrow> string option" where
  "truthy v = (case v of None \<Rightarrow> None | Some s \<Rightarrow> if s = [] then None else Some s)"

definition post_image ::
  "builtin_get \<Rightarrow> sharp_lib \<Rightarrow> (string \<Rightarrow> byte list) \<Rightarrow> int \<Rightarrow> int \<Rightarrow> int \<Rightarrow> request_body
     \<Rightarrow> world \<Rightarrow> image_result api_response \<times> world" where
  "post_image rt lib decode t_name t_stamp t_sweep body w =
     (case (truthy (req_fileData body), truthy (req_outputFormat body)) of
        (Some fileData, Some format) \<Rightarrow>
          (case ImageController_convertImage rt lib t_name t_stamp t_sweep (decode fileData)
                  format (level_or_medium (req_compressionLevel body)) w of
             (Inr result, w') \<Rightarrow> (Ok_json result, w')
           | (Inl e, w') \<Rightarrow>
               (Error_json 500 (if e = [] then ''Failed to convert image'' else e), w'))
      | _ \<Rightarrow> (Error_json 400 ''Missing required parameters: fileData and outputFormat'', w))"

definition post_pdf ::
  "pdf_lib \<Rightarrow> (string \<Rightarrow> byte list) \<Rightarrow> int \<Rightarrow> int \<Rightarrow> int \<Rightarrow> request_body
     \<Rightarrow> world \<Rightarrow> pdf_result api_response \<times> world" where
  "post_pdf lib decode t_name t_stamp t_sweep body w =
     (case truthy (req_fileData body) of
        Some fileData \<Rightarrow>
          (case PDFController_compressPDF lib t_name t_stamp t_sweep (decode fileData)
                  (level_or_medium (req_compressionLevel body)) w of
             (Inr result, w') \<Rightarrow> (Ok_json result, w')
           | (Inl e, w') \<Rightarrow>
               (Error_json 500 (if e = [] then ''Failed to compress PDF'' else e), w'))
      | None \<Rightarrow> (Error_json 400 ''Missing required parameter: fileData'', w))"

section \<open>Notions used in the statements about progress events\<close>

text \<open>What \<open>send\<close> does to a client that takes the message, and the loop when no \<open>send\<close> throws.\<close>

definition deliver :: "ws_message \<Rightarrow> client \<Rightarrow> client" where
  "deliver msg c = (if readyState c = 1 then c\<lparr>received := received c @ [msg]\<rparr> else c)"

definition publish :: "progress_event \<Rightarrow> world \<Rightarrow> world" where
  "publish ev w =
     w\<lparr>published := published w @ [ev],
       wss := map_option (map (deliver (Progress_message ev))) (wss w)\<rparr>"

text \<open>No client whose channel is open has a \<open>send\<close> that throws.\<close>

definition send_ok :: "client \<Rightarrow> bool" where
  "send_ok c = (if readyState c = 1 then send_error c = None else True)"

definition no_send_errors :: "world \<Rightarrow> bool" where
  "no_send_errors w = (case wss w of None \<Rightarrow> True | Some cs \<Rightarrow> list_all send_ok cs)"

text \<open>The events published between two worlds of one run.\<close>

definition new_events :: "world \<Rightarrow> world \<Rightarrow> progress_event list" where
  "new_events w w' = drop (length (published w)) (published w')"

definition initial_world :: world where
  "initial_world = \<lparr>wss = None, server = initial_state, published = []\<rparr>"

text \<open>
  The exact percentage saved, and what it means for a ratio string to report it: an optional
  minus sign (present exactly when the result is larger than the input), a decimal numeral
  with one digit after the point, and \<open>%\<close>, where the numeral differs from the magnitude of
  the exact percentage by at most half a unit of the last digit, plus the rounding error of
  the two binary64 operations.
\<close>

definition exact_percent :: "nat \<Rightarrow> nat \<Rightarrow> rat" where
  "exact_percent size_in size_out = (of_nat size_in - of_nat size_out) / of_nat size_in * 100"

definition ratio_reports :: "nat \<Rightarrow> nat \<Rightarrow> string \<Rightarrow> bool" where
  "ratio_reports size_in size_out s =
     (\<exists>n::nat.
        s = (if size_in < size_out then [CHR ''-''] else [])
              @ string_of_nat (n div 10) @ [CHR ''.''] @ [digit_char (n mod 10)] @ [CHR ''%'']
        \<and> \<bar>of_nat n / 10 - \<bar>exact_percent size_in size_out\<bar>\<bar>
              \<le> 1 / 20 + \<bar>exact_percent size_in size_out\<bar> / 2 ^ 51)"

text \<open>
  A failed run between two worlds: the last event published has percent 0, the given
  message and the error text \<open>e\<close>, which is not empty; every event published before it
  has a positive percent and no error field.
\<close>

definition terminal_failure :: "string \<Rightarrow> string \<Rightarrow> world \<Rightarrow> world \<Rightarrow> bool" where
  "terminal_failure msg e w w' =
     (published w' = published w @ new_events w w'
      \<and> new_events w w' \<noteq> []
      \<and> last (new_events w w') = \<lparr>progress = 0, message = msg, error = Some e\<rparr>
      \<and> e \<noteq> []
      \<and> list_all (\<lambda>ev. 0 < progress ev \<and> error ev = None) (butlast (new_events w w')))"

text \<open>The event the PDF controller publishes for page \<open>i\<close> of \<open>totalPages\<close>.\<close>

definition page_event :: "nat \<Rightarrow> nat \<Rightarrow> progress_event" where
  "page_event totalPages i =
     \<lparr>progress = js_add 20 (js_mul (js_add 50 (js_mul (js_div (of_nat i) (of_nat totalPages)) 40))
                               (fl (7 / 10))),
      message = ''Processing page '' @ string_of_nat (i + 1) @ '' of ''
                  @ string_of_nat totalPages @ ''...'',
      error = None\<rparr>"

section \<open>Example libraries\<close>

text \<open>
  Concrete behaviours of the libraries, used to run the controllers on explicit inputs:
  a \<open>sharp\<close> whose encoder appends one byte, a \<open>sharp\<close> whose \<open>toBuffer\<close> rejects, a
  \<open>pdf-lib\<close> that loads every buffer as a document of ten pages and saves it one byte
  longer, and one whose \<open>save\<close> rejects. No built-in object has the properties asked for.
\<close>

definition example_runtime :: builtin_get where
  "example_runtime = (\<lambda>f p. Inr False)"

definition example_sharp :: sharp_lib where
  "example_sharp =
     \<lparr>sharp_open = (\<lambda>b. None),
      sharp_metadata = (\<lambda>b. Inr \<lparr>meta_format = ''png'', width = 1, height = 1\<rparr>),
      sharp_format = (\<lambda>b e. None),
      sharp_toBuffer = (\<lambda>b e. Inr (b @ [0xD9]))\<rparr>"

definition example_failing_sharp :: sharp_lib where
  "example_failing_sharp =
     \<lparr>sharp_open = (\<lambda>b. None),
      sharp_metadata = (\<lambda>b. Inr \<lparr>meta_format = ''png'', width = 1, height = 1\<rparr>),
      sharp_format = (\<lambda>b e. None),
      sharp_toBuffer = (\<lambda>b e. Inl ''corrupt header'')\<rparr>"

definition example_pdf_lib :: pdf_lib where
  "example_pdf_lib =
     \<lparr>pdf_load = (\<lambda>b. Inr 10),
      pdf_save = (\<lambda>b u m. Inr (b @ [0x0A]))\<rparr>"

definition example_failing_pdf_lib :: pdf_lib where
  "example_failing_pdf_lib =
     \<lparr>pdf_load = (\<lambda>b. Inr 10),
      pdf_save = (\<lambda>b u m. Inl ''save failed'')\<rparr>"

section \<open>The events of a successful run\<close>

text \<open>
  The events, in order, that the controllers publish on the path without any error
  (the lemmas \<open>convertImage_success_run\<close> and \<open>compressPDF_success_run\<close> prove that these
  are the events of such a run).
\<close>

definition relayed :: "rat \<Rightarrow> rat \<Rightarrow> rat \<Rightarrow> string \<Rightarrow> progress_event" where
  "relayed base scale p m =
     \<lparr>progress = js_add base (js_mul p (fl scale)), message = m, error = None\<rparr>"

definition image_success_events :: "progress_event list" where
  "image_success_events =
     [\<lparr>progress = 10, message = ''Analyzing image...'', error = None\<rparr>,
      \<lparr>progress = 30, message = ''Starting conversion...'', error = None\<rparr>,
      relayed 30 (6 / 10) 10 ''Initializing conversion...'',
      relayed 30 (6 / 10) 30 ''Applying compression settings...'',
      relayed 30 (6 / 10) 60 ''Converting image...'',
      relayed 30 (6 / 10) 90 ''Finalizing conversion...'',
      relayed 30 (6 / 10) 100 ''Conversion complete!'',
      \<lparr>progress = 90, message = ''Preparing download...'', error = None\<rparr>,
      \<lparr>progress = 100, message = ''Conversion completed!'', error = None\<rparr>]"

definition pdf_success_events :: "nat \<Rightarrow> progress_event list" where
  "pdf_success_events n =
     [\<lparr>progress = 10, message = ''Analyzing PDF...'', error = None\<rparr>,
      \<lparr>progress = 20, message = ''Processing PDF with '' @ string_of_nat n @ '' pages...'',
       error = None\<rparr>,
      relayed 20 (7 / 10) 10 ''Loading PDF document...'',
      relayed 20 (7 / 10) 30 ''Analyzing document structure...'',
      relayed 20 (7 / 10) 50 ''Applying compression...'']
     @ map (page_event n) [0..<n]
     @ [relayed 20 (7 / 10) 85 ''Applying document optimizations...'',
        relayed 20 (7 / 10) 90 ''Generating compressed PDF...'',
        relayed 20 (7 / 10) 100 ''Compression complete!'',
        \<lparr>progress = 90, message = ''Preparing download...'', error = None\<rparr>,
        \<lparr>progress = 100, message = ''Compression completed!'', error = None\<rparr>]"

text \<open>Two runs on explicit inputs, in a world without server object and with an empty store.\<close>

definition example_image_run :: "(string + image_result) \<times> world" where
  "example_image_run =
     ImageController_convertImage example_runtime example_sharp
       1700000000000 1700000000000 1700000000000 [0xFF, 0xD8, 0xFF, 0xE0] ''jpg'' ''high''
       initial_world"

definition example_pdf_run :: "(string + pdf_result) \<times> world" where
  "example_pdf_run =
     PDFController_compressPDF example_pdf_lib
       1700000000000 1700000000000 1700000000000 [0x25, 0x50, 0x44, 0x46] ''medium''
       initial_world"

text \<open>Reading a decimal numeral back, to show that different integers are written differently.\<close>

definition digit_value :: "char \<Rightarrow> nat" where
  "digit_value c = (case map_of (zip ''0123456789'' [0, 1, 2, 3, 4, 5, 6, 7, 8, 9]) c of
                      Some d \<Rightarrow> d | None \<Rightarrow> 0)"

definition nat_of_digits :: "string \<Rightarrow> nat" where
  "nat_of_digits ds = foldl (\<lambda>a c. 10 * a + digit_value c) 0 ds"

section \<open>Properties of the sweep\<close>

lemma map_of_cleanup_step:
  "map_of (cleanup_step now k fs) k' =
     (if k' = k then unexpired now (map_of fs k) else map_of fs k')"
  by (auto simp: cleanup_step_def unexpired_def AList.delete_conv' split: option.splits)

lemma unexpired_idem: "unexpired now (unexpired now e) = unexpired now e"
  by (auto simp: unexpired_def split: option.splits)

lemma map_of_cleanup_fold:
  "map_of (fold (cleanup_step now) ks fs) k =
     (if k \<in> set ks then unexpired now (map_of fs k) else map_of fs k)"
proof (induction ks arbitrary: fs)
  case Nil
  show ?case by simp
next
  case (Cons a ks)
  show ?case
    by (simp add: Cons.IH map_of_cleanup_step unexpired_idem)
qed

lemma map_of_sweep:
  "map_of (fold (cleanup_step now) (map fst fs) fs) k = unexpired now (map_of fs k)"
proof (cases "k \<in> fst ` set fs")
  case True
  then show ?thesis by (simp add: map_of_cleanup_fold)
next
  case False
  then have "map_of fs k = None" by (simp add: map_of_eq_None_iff)
  with False show ?thesis by (simp add: map_of_cleanup_fold unexpired_def)
qed

lemma fold_unchanged:
  "(\<And>k. k \<in> set ks \<Longrightarrow> f k fs = fs) \<Longrightarrow> fold f ks fs = fs"
  by (induction ks) simp_all

lemma cleanup_step_fresh:
  "unexpired now (map_of fs k) = map_of fs k \<Longrightarrow> cleanup_step now k fs = fs"
  by (auto simp: cleanup_step_def unexpired_def split: option.splits if_splits)

lemma sweep_fixpoint:
  "fold (cleanup_step now) ks (fold (cleanup_step now) (map fst fs) fs)
     = fold (cleanup_step now) (map fst fs) fs"
  by (rule fold_unchanged, rule cleanup_step_fresh) (simp add: map_of_sweep unexpired_idem)

lemma live_files_cleanup:
  "live_files (cleanupOldFiles now st) k = unexpired now (live_files st k)"
  by (cases "tempFiles st")
     (simp_all add: live_files_def cleanupOldFiles_def map_of_sweep unexpired_def)

text \<open>
  C8. A sweep at time \<open>now\<close> removes exactly the records older than the retention window
  of 10 minutes: a name is bound after the sweep if and only if it was bound before to a
  record whose age \<open>now - timestamp\<close> is at most \<open>maxAge\<close>, and then to the same record.
  The timers are not touched. A second sweep at the same time leaves the store as the
  first one left it.
\<close>

theorem cleanupOldFiles_exact_and_idempotent:
  "live_files (cleanupOldFiles now st) k =
     (case live_files st k of
        None \<Rightarrow> None
      | Some f \<Rightarrow> if now - timestamp f > maxAge then None else Some f)
   \<and> timers (cleanupOldFiles now st) = timers st
   \<and> cleanupOldFiles now (cleanupOldFiles now st) = cleanupOldFiles now st"
proof -
  have a: "live_files (cleanupOldFiles now st) k =
     (case live_files st k of
        None \<Rightarrow> None
      | Some f \<Rightarrow> if now - timestamp f > maxAge then None else Some f)"
    by (simp add: live_files_cleanup unexpired_def)
  have b: "timers (cleanupOldFiles now st) = timers st"
    by (cases "tempFiles st") (simp_all add: cleanupOldFiles_def)
  have c: "cleanupOldFiles now (cleanupOldFiles now st) = cleanupOldFiles now st"
    by (cases "tempFiles st") (simp_all add: cleanupOldFiles_def sweep_fixpoint)
  from a b c show ?thesis by simp
qed

section \<open>Properties of the store and the download route\<close>

lemma live_files_put:
  "live_files (cleanupOldFiles tw (st\<lparr>tempFiles := Some (AList.update k r (case tempFiles st of None \<Rightarrow> [] | Some fs \<Rightarrow> fs))\<rparr>)) k'
     = unexpired tw (((live_files st)(k \<mapsto> r)) k')"
  by (cases "tempFiles st")
     (simp_all add: live_files_cleanup, simp_all add: live_files_def AList.update_conv')

lemma timers_cleanup: "timers (cleanupOldFiles now st) = timers st"
  by (cases "tempFiles st") (simp_all add: cleanupOldFiles_def)

lemma tempFiles_cleanup_None:
  "tempFiles (cleanupOldFiles now st) = None \<longleftrightarrow> tempFiles st = None"
  by (cases "tempFiles st") (simp_all add: cleanupOldFiles_def)

lemma get_prop_live:
  "tempFiles st = Some fs \<Longrightarrow>
   get_prop fs k = (case live_files st k of Some f \<Rightarrow> Value f
      | None \<Rightarrow> if k \<in> set object_prototype_keys then Builtin k else Undefined)"
  by (simp add: get_prop_def live_files_def)

lemma download_live:
  "live_files st k = Some f \<Longrightarrow>
   download now k st =
     (Sent (mimeType f) (''attachment; filename='' @ [CHR 0x22] @ originalName f @ [CHR 0x22])
        (length (buffer f)) (buffer f),
      st\<lparr>timers := timers st @ [(now + 60000, k)]\<rparr>)"
  by (cases "tempFiles st") (simp_all add: download_def get_prop_def live_files_def)

lemma download_absent:
  "live_files st k = None \<Longrightarrow> k \<notin> set object_prototype_keys \<Longrightarrow>
   download now k st = (Json 404 ''File not found or expired'', st)"
  by (cases "tempFiles st") (simp_all add: download_def get_prop_def live_files_def)

lemma download_builtin:
  "tempFiles st \<noteq> None \<Longrightarrow> live_files st k = None \<Longrightarrow> k \<in> set object_prototype_keys \<Longrightarrow>
   download now k st = (Json 500 ''Failed to download file'', st)"
  by (cases "tempFiles st") (simp_all add: download_def get_prop_def live_files_def)

lemma live_files_fire: "live_files (fire k st) = (live_files st)(k := None)"
  by (cases "tempFiles st")
     (auto simp: fire_def live_files_def get_prop_def AList.delete_conv' fun_eq_iff
           split: looked_up.splits option.splits)

lemma timers_fire: "timers (fire k st) = timers st"
  by (cases "tempFiles st") (auto simp: fire_def split: looked_up.splits)

lemma live_files_fold_fire:
  "live_files (fold fire ks st) k = (if k \<in> set ks then None else live_files st k)"
  by (induction ks arbitrary: st) (simp_all add: live_files_fire)

lemma timers_fold_fire: "timers (fold fire ks st) = timers st"
  by (induction ks arbitrary: st) (simp_all add: timers_fire)

lemma live_files_timers_update: "live_files (st\<lparr>timers := ts\<rparr>) = live_files st"
  by (simp add: live_files_def)

lemma live_files_run_timers:
  "live_files (run_timers now st) k =
     (if k \<in> snd ` set (filter (due_at now) (timers st)) then None else live_files st k)"
  by (simp add: run_timers_def live_files_fold_fire live_files_timers_update)

lemma timers_run_timers:
  "timers (run_timers now st) = filter (\<lambda>tm. \<not> due_at now tm) (timers st)"
  by (simp add: run_timers_def timers_fold_fire)

lemma converted_not_builtin: "''converted_'' @ s \<notin> set object_prototype_keys"
  by (simp add: object_prototype_keys_def)

lemma compressed_not_builtin: "''compressed_'' @ s \<notin> set object_prototype_keys"
  by (simp add: object_prototype_keys_def)

lemma image_put_state:
  "snd (ImageController_storeForDownload tn ts tw buf fmt st) =
     cleanupOldFiles tw (st\<lparr>tempFiles := Some (AList.update
        (''converted_'' @ string_of_int tn @ ''.'' @ fmt)
        \<lparr>buffer = buf, mimeType = getMimeType fmt,
         originalName = ''converted_image.'' @ fmt, timestamp = ts\<rparr>
        (case tempFiles st of None \<Rightarrow> [] | Some fs \<Rightarrow> fs))\<rparr>)"
  by (simp add: ImageController_storeForDownload_def Let_def)

lemma live_files_image_put:
  "live_files (snd (ImageController_storeForDownload tn ts tw buf fmt st)) k =
     unexpired tw (((live_files st)(''converted_'' @ string_of_int tn @ ''.'' @ fmt \<mapsto>
        \<lparr>buffer = buf, mimeType = getMimeType fmt,
         originalName = ''converted_image.'' @ fmt, timestamp = ts\<rparr>)) k)"
  unfolding image_put_state by (rule live_files_put)

lemma timers_image_put:
  "timers (snd (ImageController_storeForDownload tn ts tw buf fmt st)) = timers st"
  by (simp add: image_put_state timers_cleanup)

lemma tempFiles_image_put:
  "tempFiles (snd (ImageController_storeForDownload tn ts tw buf fmt st)) \<noteq> None"
  by (simp add: image_put_state tempFiles_cleanup_None)

lemma pdf_put_state:
  "snd (PDFController_storeForDownload tn ts tw buf st) =
     cleanupOldFiles tw (st\<lparr>tempFiles := Some (AList.update
        (''compressed_'' @ string_of_int tn @ ''.pdf'')
        \<lparr>buffer = buf, mimeType = Value ''application/pdf'',
         originalName = ''compressed_document.pdf'', timestamp = ts\<rparr>
        (case tempFiles st of None \<Rightarrow> [] | Some fs \<Rightarrow> fs))\<rparr>)"
  by (simp add: PDFController_storeForDownload_def Let_def)

lemma live_files_pdf_put:
  "live_files (snd (PDFController_storeForDownload tn ts tw buf st)) k =
     unexpired tw (((live_files st)(''compressed_'' @ string_of_int tn @ ''.pdf'' \<mapsto>
        \<lparr>buffer = buf, mimeType = Value ''application/pdf'',
         originalName = ''compressed_document.pdf'', timestamp = ts\<rparr>)) k)"
  unfolding pdf_put_state by (rule live_files_put)

lemma roundtrip_parts:
  fixes t_name t_stamp t_sweep now :: int and format :: string and buf :: "byte list"
    and st :: server_state
  assumes fresh: "t_sweep - t_stamp \<le> maxAge"
  defines "filename \<equiv> ''converted_'' @ string_of_int t_name @ ''.'' @ format"
  defines "put \<equiv> ImageController_storeForDownload t_name t_stamp t_sweep buf format st"
  defines "sent \<equiv> Sent (getMimeType format)
      (''attachment; filename='' @ [CHR 0x22] @ ''converted_image.'' @ format @ [CHR 0x22])
      (length buf) buf"
  defines "st2 \<equiv> snd (download now filename (snd put))"
  shows "fst put = ''/api/convert/download/'' @ filename"
    and "download now filename (snd put) =
           (sent, (snd put)\<lparr>timers := timers st @ [(now + 60000, filename)]\<rparr>)"
    and "t < now + 60000 \<Longrightarrow> filename \<notin> snd ` set (timers st) \<Longrightarrow>
           fst (download t' filename (run_timers t st2)) = sent"
    and "now + 60000 \<le> t \<Longrightarrow>
           fst (download t' filename (run_timers t st2)) = Json 404 ''File not found or expired''"
proof -
  let ?r = "\<lparr>buffer = buf, mimeType = getMimeType format,
             originalName = ''converted_image.'' @ format, timestamp = t_stamp\<rparr>"
  have live: "live_files (snd put) filename = Some ?r"
    using fresh by (simp add: put_def filename_def live_files_image_put unexpired_def)
  show "fst put = ''/api/convert/download/'' @ filename"
    by (simp add: put_def filename_def ImageController_storeForDownload_def Let_def)
  show dl: "download now filename (snd put) =
           (sent, (snd put)\<lparr>timers := timers st @ [(now + 60000, filename)]\<rparr>)"
    using download_live [OF live, of now]
    by (simp add: sent_def put_def timers_image_put)
  have st2: "st2 = (snd put)\<lparr>timers := timers st @ [(now + 60000, filename)]\<rparr>"
    by (simp add: st2_def dl)
  have live2: "live_files st2 filename = Some ?r"
    by (simp add: st2 live_files_timers_update live)
  show "fst (download t' filename (run_timers t st2)) = sent"
    if "t < now + 60000" "filename \<notin> snd ` set (timers st)"
  proof -
    have "filename \<notin> snd ` set (filter (due_at t) (timers st2))"
      using that by (auto simp: st2 due_at_def)
    then have "live_files (run_timers t st2) filename = Some ?r"
      by (simp add: live_files_run_timers live2)
    from download_live [OF this, of t'] show ?thesis by (simp add: sent_def)
  qed
  show "fst (download t' filename (run_timers t st2)) = Json 404 ''File not found or expired''"
    if "now + 60000 \<le> t"
  proof -
    have "filename \<in> snd ` set (filter (due_at t) (timers st2))"
      using that by (force simp: st2 due_at_def)
    then have "live_files (run_timers t st2) filename = None"
      by (simp add: live_files_run_timers)
    moreover have "filename \<notin> set object_prototype_keys"
      unfolding filename_def by (rule converted_not_builtin)
    ultimately show ?thesis by (simp add: download_absent)
  qed
qed

text \<open>
  C5. Round trip of the store, for the image controller. Provided the sweep inside
  \<open>storeForDownload\<close> does not read a clock more than 10 minutes past the record's own
  timestamp, the call returns the URL of the new file name; a download of that name
  answers with the stored buffer, the content type chosen by \<open>getMimeType\<close> and the display
  name \<open>converted_image.<format>\<close>, leaves \<open>global.tempFiles\<close> as it is and registers a
  timer due 60000 ms later. Until that time a further download is answered in the same
  way (when no timer set earlier names the file); once the event loop has run at or after
  that time, a download answers 404.
\<close>

theorem store_then_download_roundtrip:
  assumes "t_sweep - t_stamp \<le> maxAge"
  shows
    "let filename = ''converted_'' @ string_of_int t_name @ ''.'' @ format;
         put = ImageController_storeForDownload t_name t_stamp t_sweep buf format st;
         sent = Sent (getMimeType format)
           (''attachment; filename='' @ [CHR 0x22] @ ''converted_image.'' @ format @ [CHR 0x22])
           (length buf) buf;
         st2 = snd (download now filename (snd put))
     in fst put = ''/api/convert/download/'' @ filename
      \<and> download now filename (snd put) =
           (sent, (snd put)\<lparr>timers := timers st @ [(now + 60000, filename)]\<rparr>)
      \<and> (\<forall>t t'. t < now + 60000 \<and> filename \<notin> snd ` set (timers st) \<longrightarrow>
           fst (download t' filename (run_timers t st2)) = sent)
      \<and> (\<forall>t t'. now + 60000 \<le> t \<longrightarrow>
           fst (download t' filename (run_timers t st2)) = Json 404 ''File not found or expired'')"
  unfolding Let_def
  using roundtrip_parts(1) [OF assms, where t_name = t_name and format = format
      and buf = buf and st = st]
    roundtrip_parts(2) [OF assms, where now = now and t_name = t_name and format = format
      and buf = buf and st = st]
    roundtrip_parts(3) [OF assms, where now = now and t_name = t_name and format = format
      and buf = buf and st = st]
    roundtrip_parts(4) [OF assms, where now = now and t_name = t_name and format = format
      and buf = buf and st = st]
  by blast

theorem store_then_download_roundtrip_witness:
  "(1700000000001::int) - 1700000000000 \<le> maxAge
   \<and> fst (ImageController_storeForDownload 1700000000000 1700000000000 1700000000001
            [0x89, 0x50] ''png'' initial_state)
       = ''/api/convert/download/converted_1700000000000.png''
   \<and> fst (download 1700000000500 ''converted_1700000000000.png''
        (snd (ImageController_storeForDownload 1700000000000 1700000000000 1700000000001
            [0x89, 0x50] ''png'' initial_state)))
       = Sent (Value ''image/png'') (''attachment; filename='' @ [CHR 0x22] @ ''converted_image.png'' @ [CHR 0x22]) 2 [0x89, 0x50]"
proof -
  have h: "(1700000000001::int) - 1700000000000 \<le> maxAge" by (simp add: maxAge_def)
  have n: "string_of_int 1700000000000 = ''1700000000000''"
    by (simp add: string_of_int_def string_of_nat.simps digit_char_def)
  have m: "getMimeType ''png'' = Value ''image/png''"
    by (simp add: getMimeType_def get_prop_def toLowerCase_def lower_char_def mimeTypes_def)
  show ?thesis
    using h store_then_download_roundtrip [OF h, where t_name = 1700000000000
        and format = "''png''" and buf = "[0x89, 0x50]" and st = initial_state
        and now = 1700000000500]
    by (simp add: Let_def n m)
qed

section \<open>File names built from the clock\<close>

lemma string_of_int_example: "string_of_int 1700000000000 = ''1700000000000''"
  by (simp add: string_of_int_def string_of_nat.simps digit_char_def)

lemma getMimeType_png: "getMimeType ''png'' = Value ''image/png''"
  by (simp add: getMimeType_def get_prop_def toLowerCase_def lower_char_def mimeTypes_def)

lemma digit_cases: "d < 10 \<Longrightarrow> d \<in> {0, 1, 2, 3, 4, 5, 6, 7, 8, 9 :: nat}"
  by auto

lemma digit_value_digit_char: "d < 10 \<Longrightarrow> digit_value (digit_char d) = d"
  using digit_cases [of d] by (auto simp: digit_value_def digit_char_def)

lemma digit_char_in_digits: "d < 10 \<Longrightarrow> digit_char d \<in> set ''0123456789''"
  using digit_cases [of d] by (auto simp: digit_char_def)

lemma nat_of_digits_snoc: "nat_of_digits (ds @ [c]) = 10 * nat_of_digits ds + digit_value c"
  by (simp add: nat_of_digits_def)

lemma nat_of_digits_string_of_nat: "nat_of_digits (string_of_nat n) = n"
proof (induction n rule: string_of_nat.induct)
  case (1 n)
  show ?case
  proof (cases "n < 10")
    case True
    then show ?thesis
      by (subst string_of_nat.simps) (simp add: nat_of_digits_def digit_value_digit_char)
  next
    case False
    with "1" show ?thesis
      by (subst string_of_nat.simps) (simp add: nat_of_digits_snoc digit_value_digit_char)
  qed
qed

lemma string_of_nat_digits: "set (string_of_nat n) \<subseteq> set ''0123456789''"
proof (induction n rule: string_of_nat.induct)
  case (1 n)
  show ?case
  proof (cases "n < 10")
    case True
    then show ?thesis
      using digit_char_in_digits [of n] by (subst string_of_nat.simps) simp
  next
    case False
    with "1" show ?thesis
      using digit_char_in_digits [of "n mod 10"] by (subst string_of_nat.simps) simp
  qed
qed

lemma string_of_nat_inj: "string_of_nat m = string_of_nat n \<Longrightarrow> m = n"
  by (metis nat_of_digits_string_of_nat)

lemma split_at_first:
  "x \<notin> set xs \<Longrightarrow> x \<notin> set xs' \<Longrightarrow> xs @ x # ys = xs' @ x # ys' \<Longrightarrow> xs = xs' \<and> ys = ys'"
proof (induction xs arbitrary: xs')
  case Nil
  then show ?case by (cases xs') auto
next
  case (Cons a xs)
  then show ?case by (cases xs') auto
qed

lemma string_of_int_inj: "string_of_int i = string_of_int j \<Longrightarrow> i = j"
proof -
  assume eq: "string_of_int i = string_of_int j"
  have ne: "string_of_nat n \<noteq> CHR ''-'' # s" for n s
    using string_of_nat_digits [of n] by auto
  show "i = j"
  proof (cases "i < 0"; cases "j < 0")
    assume "i < 0" "j < 0"
    with eq have "nat (- i) = nat (- j)" by (simp add: string_of_int_def string_of_nat_inj)
    with \<open>i < 0\<close> \<open>j < 0\<close> show ?thesis by simp
  next
    assume "i < 0" "\<not> j < 0"
    with eq ne show ?thesis by (simp add: string_of_int_def) metis
  next
    assume "\<not> i < 0" "j < 0"
    with eq ne show ?thesis by (simp add: string_of_int_def)
  next
    assume "\<not> i < 0" "\<not> j < 0"
    with eq have "nat i = nat j" by (simp add: string_of_int_def string_of_nat_inj)
    with \<open>\<not> i < 0\<close> \<open>\<not> j < 0\<close> show ?thesis by simp
  qed
qed

lemma string_of_int_no_dot: "CHR ''.'' \<notin> set (string_of_int i)"
  using string_of_nat_digits [of "nat i"] string_of_nat_digits [of "nat (- i)"]
  by (auto simp: string_of_int_def)

text \<open>
  The two identifiers differ as soon as the clock readings for the name or the formats
  differ: the collision of C1 needs the same millisecond and the same format.
\<close>

lemma storeForDownload_names_differ:
  "fst (ImageController_storeForDownload t1 s1 w1 b1 f1 st1)
     = fst (ImageController_storeForDownload t2 s2 w2 b2 f2 st2) \<longleftrightarrow> t1 = t2 \<and> f1 = f2"
  "fst (PDFController_storeForDownload t1 s1 w1 b1 st1)
     = fst (PDFController_storeForDownload t2 s2 w2 b2 st2) \<longleftrightarrow> t1 = t2"
  "fst (ImageController_storeForDownload t1 s1 w1 b1 f1 st1)
     \<noteq> fst (PDFController_storeForDownload t2 s2 w2 b2 st2)"
proof -
  have names: "string_of_int t1 @ CHR ''.'' # x = string_of_int t2 @ CHR ''.'' # y
      \<longleftrightarrow> t1 = t2 \<and> x = y" for x y
    using split_at_first [OF string_of_int_no_dot string_of_int_no_dot, of t1 x t2 y]
      string_of_int_inj [of t1 t2]
    by auto
  show "fst (ImageController_storeForDownload t1 s1 w1 b1 f1 st1)
     = fst (ImageController_storeForDownload t2 s2 w2 b2 f2 st2) \<longleftrightarrow> t1 = t2 \<and> f1 = f2"
    by (simp add: ImageController_storeForDownload_def Let_def names)
  show "fst (PDFController_storeForDownload t1 s1 w1 b1 st1)
     = fst (PDFController_storeForDownload t2 s2 w2 b2 st2) \<longleftrightarrow> t1 = t2"
    using names [of "''pdf''" "''pdf''"]
    by (simp add: PDFController_storeForDownload_def Let_def)
  show "fst (ImageController_storeForDownload t1 s1 w1 b1 f1 st1)
     \<noteq> fst (PDFController_storeForDownload t2 s2 w2 b2 st2)"
    by (simp add: ImageController_storeForDownload_def PDFController_storeForDownload_def Let_def)
qed

text \<open>
  C1. The identifier is \<open>converted_<Date.now()>.<format>\<close> (\<open>compressed_<Date.now()>.pdf\<close>
  for PDFs): two calls of \<open>storeForDownload\<close> that read the same millisecond, for the
  same format, return the same URL, and the second assignment replaces the record of the
  first. Here two PNG results and two PDF results are stored at the clock reading
  1700000000000: in each pair both calls return one URL, and a download of it answers with
  the buffer of the second call. In every other case the identifiers differ
  (\<open>storeForDownload_names_differ\<close>).
\<close>

theorem storeForDownload_same_millisecond_collides:
  "fst (ImageController_storeForDownload 1700000000000 1700000000000 1700000000000
          [0x01] ''png'' initial_state)
     = ''/api/convert/download/converted_1700000000000.png''
   \<and> fst (ImageController_storeForDownload 1700000000000 1700000000000 1700000000000
          [0x02] ''png''
          (snd (ImageController_storeForDownload 1700000000000 1700000000000 1700000000000
                  [0x01] ''png'' initial_state)))
     = ''/api/convert/download/converted_1700000000000.png''
   \<and> fst (download 1700000000001 ''converted_1700000000000.png''
        (snd (ImageController_storeForDownload 1700000000000 1700000000000 1700000000000
          [0x02] ''png''
          (snd (ImageController_storeForDownload 1700000000000 1700000000000 1700000000000
                  [0x01] ''png'' initial_state)))))
     = Sent (Value ''image/png'')
         (''attachment; filename='' @ [CHR 0x22] @ ''converted_image.png'' @ [CHR 0x22])
         1 [0x02]
   \<and> fst (PDFController_storeForDownload 1700000000000 1700000000000 1700000000000
          [0x03] initial_state)
     = fst (PDFController_storeForDownload 1700000000000 1700000000000 1700000000000
          [0x04]
          (snd (PDFController_storeForDownload 1700000000000 1700000000000 1700000000000
                  [0x03] initial_state)))
   \<and> fst (download 1700000000001 ''compressed_1700000000000.pdf''
        (snd (PDFController_storeForDownload 1700000000000 1700000000000 1700000000000
          [0x04]
          (snd (PDFController_storeForDownload 1700000000000 1700000000000 1700000000000
                  [0x03] initial_state)))))
     = Sent (Value ''application/pdf'')
         (''attachment; filename='' @ [CHR 0x22] @ ''compressed_document.pdf'' @ [CHR 0x22])
         1 [0x04]"
proof -
  have u: "fst (ImageController_storeForDownload 1700000000000 ts tw b ''png'' s)
             = ''/api/convert/download/converted_1700000000000.png''" for ts tw b s
    by (simp add: ImageController_storeForDownload_def Let_def string_of_int_example)
  have l: "live_files (snd (ImageController_storeForDownload 1700000000000 1700000000000
             1700000000000 b ''png'' s)) ''converted_1700000000000.png''
           = Some \<lparr>buffer = b, mimeType = Value ''image/png'',
               originalName = ''converted_image.png'', timestamp = 1700000000000\<rparr>" for b s
    by (simp add: live_files_image_put string_of_int_example getMimeType_png unexpired_def
          maxAge_def)
  have p: "live_files (snd (PDFController_storeForDownload 1700000000000 1700000000000
             1700000000000 b s)) ''compressed_1700000000000.pdf''
           = Some \<lparr>buffer = b, mimeType = Value ''application/pdf'',
               originalName = ''compressed_document.pdf'', timestamp = 1700000000000\<rparr>" for b s
    by (simp add: live_files_pdf_put string_of_int_example unexpired_def maxAge_def)
  have v: "fst (PDFController_storeForDownload 1700000000000 ts tw b s)
             = ''/api/convert/download/compressed_1700000000000.pdf''" for ts tw b s
    by (simp add: PDFController_storeForDownload_def Let_def string_of_int_example)
  show ?thesis
    by (simp add: u v download_live [OF l] download_live [OF p])
qed

section \<open>Downloads of names that were never stored\<close>

lemma live_files_initial: "live_files initial_state k = None"
  by (simp add: live_files_def initial_state_def)

text \<open>
  A name that no call of \<open>storeForDownload\<close> ever issued can still be found by the
  lookup: once \<open>global.tempFiles\<close> exists (here after one image has been stored in the
  initial state, with any clock readings, buffer and format), a download of the name
  \<open>constructor\<close> is answered with status 500 and the message \<open>Failed to download file\<close>,
  not with 404, because the lookup finds \<open>Object.prototype.constructor\<close>. Before the first
  store the same request is answered with 404.
\<close>

lemma download_inherited_name_answers_500:
  "fst (download now ''constructor''
          (snd (ImageController_storeForDownload t_name t_stamp t_sweep buf format initial_state)))
     = Json 500 ''Failed to download file''
   \<and> fst (download now ''constructor'' initial_state) = Json 404 ''File not found or expired''"
proof -
  let ?st = "snd (ImageController_storeForDownload t_name t_stamp t_sweep buf format initial_state)"
  have "live_files ?st ''constructor'' = None"
    by (simp add: live_files_image_put live_files_initial unexpired_def)
  moreover have "''constructor'' \<in> set object_prototype_keys"
    by (simp add: object_prototype_keys_def)
  ultimately have "download now ''constructor'' ?st = (Json 500 ''Failed to download file'', ?st)"
    by (simp add: download_builtin tempFiles_image_put)
  moreover have "download now ''constructor'' initial_state
      = (Json 404 ''File not found or expired'', initial_state)"
    by (simp add: download_def initial_state_def)
  ultimately show ?thesis by simp
qed




section \<open>Fallback of the compression level\<close>

lemma pdf_settings_medium:
  "PDFConverter_getCompressionSettings ''medium'' = Settings medium_settings"
  by (simp add: PDFConverter_getCompressionSettings_def get_prop_def pdf_settings_table_def)

lemma pdf_settings_fallback:
  assumes "level \<notin> {''low'', ''medium'', ''high''}" and "level \<notin> set object_prototype_keys"
  shows "PDFConverter_getCompressionSettings level = PDFConverter_getCompressionSettings ''medium''"
proof -
  from assms(1) have "map_of pdf_settings_table level = None"
    by (simp add: pdf_settings_table_def)
  with assms(2) have "get_prop pdf_settings_table level = Undefined"
    by (simp add: get_prop_def)
  then show ?thesis
    by (simp add: pdf_settings_medium) (simp add: PDFConverter_getCompressionSettings_def)
qed

lemma image_format_table:
  "get_prop image_settings_table f = Value tbl \<Longrightarrow>
     map_of tbl ''medium'' \<noteq> None \<and> (\<forall>l. l \<notin> {''low'', ''medium'', ''high''} \<longrightarrow> map_of tbl l = None)"
  by (auto simp: get_prop_def image_settings_table_def split: if_splits)

lemma image_settings_fallback:
  assumes "level \<notin> {''low'', ''medium'', ''high''}" and "level \<notin> set object_prototype_keys"
    and "toLowerCase format \<notin> set object_prototype_keys"
  shows "ImageConverter_getCompressionSettings rt format level
           = ImageConverter_getCompressionSettings rt format ''medium''"
proof (cases "get_prop image_settings_table (toLowerCase format)")
  case (Value tbl)
  from image_format_table [OF Value] assms(1)
  have "map_of tbl level = None" and "map_of tbl ''medium'' \<noteq> None" by auto
  with assms(2) Value show ?thesis
    by (auto simp: ImageConverter_getCompressionSettings_def get_prop_def)
next
  case (Builtin f)
  with assms(3) show ?thesis
    by (auto simp: get_prop_def split: option.splits if_splits)
next
  case Undefined
  then show ?thesis by (simp add: ImageConverter_getCompressionSettings_def)
qed

text \<open>
  C9. A missing or empty level is replaced by \<open>medium\<close> in the routes. The level
  \<open>constructor\<close> is none of \<open>low\<close>, \<open>medium\<close>, \<open>high\<close>, and neither converter treats it
  as \<open>medium\<close>: the PDF converter's \<open>settings[level]\<close> and the image converter's
  \<open>settings.jpg[level]\<close> find the inherited \<open>Object.prototype.constructor\<close>, which is truthy,
  so the fallback \<open>|| settings.medium\<close> is not taken and the function object is returned
  in place of the settings of \<open>medium\<close>.
\<close>

theorem getCompressionSettings_inherited_level_not_medium:
  "level_or_medium None = ''medium''
   \<and> level_or_medium (Some ''constructor'') = ''constructor''
   \<and> PDFConverter_getCompressionSettings ''constructor'' = Inherited ''constructor''
   \<and> PDFConverter_getCompressionSettings ''medium'' = Settings medium_settings
   \<and> ImageConverter_getCompressionSettings rt ''jpg'' ''constructor''
       = Inr (Prototype_member ''constructor'')
   \<and> ImageConverter_getCompressionSettings rt ''jpg'' ''medium''
       = Inr (Options [(''quality'', Num 75), (''progressive'', Bool True)])"
proof -
  have a: "level_or_medium None = ''medium''"
    and b: "level_or_medium (Some ''constructor'') = ''constructor''"
    by (simp_all add: level_or_medium_def)
  have c: "PDFConverter_getCompressionSettings ''constructor'' = Inherited ''constructor''"
    by (simp add: PDFConverter_getCompressionSettings_def get_prop_def pdf_settings_table_def
          object_prototype_keys_def)
  have l: "toLowerCase ''jpg'' = ''jpg''"
    by (simp add: toLowerCase_def lower_char_def)
  have t: "get_prop image_settings_table ''jpg'' = Value
        [(''low'', [(''quality'', Num 90), (''progressive'', Bool True)]),
         (''medium'', [(''quality'', Num 75), (''progressive'', Bool True)]),
         (''high'', [(''quality'', Num 60), (''progressive'', Bool True), (''mozjpeg'', Bool True)])]"
    by (simp add: get_prop_def image_settings_table_def)
  have d: "ImageConverter_getCompressionSettings rt ''jpg'' ''constructor''
       = Inr (Prototype_member ''constructor'')"
    by (simp add: ImageConverter_getCompressionSettings_def l t)
       (simp add: get_prop_def object_prototype_keys_def)
  have e: "ImageConverter_getCompressionSettings rt ''jpg'' ''medium''
       = Inr (Options [(''quality'', Num 75), (''progressive'', Bool True)])"
    by (simp add: ImageConverter_getCompressionSettings_def l t) (simp add: get_prop_def)
  from a b c d e pdf_settings_medium show ?thesis by simp
qed

section \<open>Publishing to the clients\<close>

lemma send_each_ok: "list_all send_ok cs \<Longrightarrow> send_each msg cs = (None, map (deliver msg) cs)"
  by (induction cs) (auto simp: send_ok_def deliver_def split: if_splits)

lemma send_each_failure:
  "list_all send_ok pre \<Longrightarrow> readyState c = 1 \<Longrightarrow> send_error c = Some e \<Longrightarrow>
   send_each msg (pre @ c # post) = (Some e, map (deliver msg) pre @ c # post)"
  by (induction pre) (auto simp: send_ok_def deliver_def split: if_splits)

lemma broadcast_ok:
  "no_send_errors w \<Longrightarrow> broadcastProgress ev w = (Inr (), publish ev w)"
  by (cases "wss w")
     (simp_all add: no_send_errors_def broadcastProgress_def publish_def Let_def send_each_ok)



section \<open>Formats without compression settings\<close>

lemma image_settings_bmp_gif:
  assumes "toLowerCase format = ''bmp'' \<or> toLowerCase format = ''gif''"
  shows "ImageConverter_getCompressionSettings rt format level = Inr (Options [])"
proof -
  from assms have "get_prop image_settings_table (toLowerCase format) = Undefined"
    by (auto simp: get_prop_def image_settings_table_def object_prototype_keys_def)
  then show ?thesis by (simp add: ImageConverter_getCompressionSettings_def)
qed

text \<open>
  C10. For an output format that is \<open>bmp\<close> or \<open>gif\<close> in any letter case, the settings
  computed are the empty object for every level, the encoder chosen takes no settings, and
  the converter and the controller are the same computations for any two levels: the same
  result or error, the same progress events, the same stored file, in every world and
  whatever the library does.
\<close>

theorem convert_bmp_gif_ignores_level:
  assumes "toLowerCase format = ''bmp'' \<or> toLowerCase format = ''gif''"
  shows "ImageConverter_getCompressionSettings rt format level1 = Inr (Options [])
    \<and> (choose_encoder format (Options []) = Inr Bmp \<or> choose_encoder format (Options []) = Inr Gif)
    \<and> ImageConverter_convert rt lib cb buf format level1
        = ImageConverter_convert rt lib cb buf format level2
    \<and> ImageController_convertImage rt lib t_name t_stamp t_sweep buf format level1
        = ImageController_convertImage rt lib t_name t_stamp t_sweep buf format level2"
proof -
  have c: "ImageConverter_convert rt lib cb buf format l1
        = ImageConverter_convert rt lib cb buf format l2" for cb l1 l2
    by (simp add: ImageConverter_convert_def image_settings_bmp_gif [OF assms])
  have e: "choose_encoder format (Options []) = Inr Bmp \<or> choose_encoder format (Options []) = Inr Gif"
    using assms by (auto simp: choose_encoder_def Let_def)
  show ?thesis
    by (simp add: image_settings_bmp_gif [OF assms] e ImageController_convertImage_def
          c [of _ level1 level2])
qed

theorem convert_bmp_gif_ignores_level_witness:
  "(toLowerCase ''BMP'' = ''bmp'' \<or> toLowerCase ''BMP'' = ''gif'')
   \<and> ImageConverter_getCompressionSettings (\<lambda>f p. Inr False) ''BMP'' ''high'' = Inr (Options [])
   \<and> ImageConverter_convert (\<lambda>f p. Inr False)
        \<lparr>sharp_open = \<lambda>b. None, sharp_metadata = \<lambda>b. Inl ''no metadata'',
         sharp_format = \<lambda>b e. None, sharp_toBuffer = \<lambda>b e. Inr b\<rparr>
        None [0x42, 0x4D] ''BMP'' ''high''
     = ImageConverter_convert (\<lambda>f p. Inr False)
        \<lparr>sharp_open = \<lambda>b. None, sharp_metadata = \<lambda>b. Inl ''no metadata'',
         sharp_format = \<lambda>b e. None, sharp_toBuffer = \<lambda>b e. Inr b\<rparr>
        None [0x42, 0x4D] ''BMP'' ''low''"
proof -
  have h: "toLowerCase ''BMP'' = ''bmp'' \<or> toLowerCase ''BMP'' = ''gif''"
    by (simp add: toLowerCase_def lower_char_def)
  show ?thesis
    using h convert_bmp_gif_ignores_level [OF h, of "\<lambda>f p. Inr False" "''high''"
        "\<lparr>sharp_open = \<lambda>b. None, sharp_metadata = \<lambda>b. Inl ''no metadata'',
         sharp_format = \<lambda>b e. None, sharp_toBuffer = \<lambda>b e. Inr b\<rparr>"
        None "[0x42, 0x4D]" "''low''"]
    by simp
qed

section \<open>Rounding to binary64\<close>

lemma pow2_pos: "0 < pow2 e"
  by (simp add: pow2_def)

lemma pow2_powi: "pow2 e = 2 powi e"
  by (simp add: pow2_def power_int_def power_inverse [symmetric] inverse_eq_divide
        power_one_over)

lemma pow2_Suc: "pow2 (e + 1) = 2 * pow2 e"
  by (simp add: pow2_powi power_int_add)

lemma pow2_sub: "pow2 (e - int n) = pow2 e / 2 ^ n"
  by (simp add: pow2_powi power_int_diff)

lemma ilog2_bounds:
  assumes "0 < x"
  shows "pow2 (ilog2 x) \<le> x" and "x < pow2 (ilog2 x + 1)"
proof -
  have "pow2 (ilog2 x) \<le> x \<and> x < pow2 (ilog2 x + 1)"
  proof (cases "1 \<le> x")
    case True
    define n where "n = \<lfloor>x\<rfloor>"
    have n1: "1 \<le> n" using True by (simp add: n_def le_floor_iff)
    from bitlen_bounds [of n] n1
    have lo: "2 ^ nat (bitlen n - 1) \<le> n" and hi: "n < 2 ^ nat (bitlen n)" by simp_all
    have b: "1 \<le> bitlen n"
    proof (rule ccontr)
      assume "\<not> 1 \<le> bitlen n"
      then have "nat (bitlen n) = 0" by simp
      with hi n1 show False by simp
    qed
    have "pow2 (bitlen n - 1) = 2 ^ nat (bitlen n - 1)" using b by (simp add: pow2_def)
    also have "\<dots> = of_int (2 ^ nat (bitlen n - 1))" by simp
    also have "\<dots> \<le> of_int n" using lo by (simp only: of_int_le_iff)
    also have "\<dots> \<le> x" unfolding n_def by (rule of_int_floor_le)
    finally have 1: "pow2 (bitlen n - 1) \<le> x" .
    have "n + 1 \<le> 2 ^ nat (bitlen n)" using hi by simp
    then have "(of_int (n + 1) :: rat) \<le> of_int (2 ^ nat (bitlen n))" by (simp only: of_int_le_iff)
    then have "(of_int (n + 1) :: rat) \<le> 2 ^ nat (bitlen n)" by simp
    moreover have "x < of_int (n + 1)" unfolding n_def by linarith
    ultimately have "x < 2 ^ nat (bitlen n)" by (rule less_le_trans [rotated])
    moreover have "pow2 (bitlen n - 1 + 1) = 2 ^ nat (bitlen n)" using b by (simp add: pow2_def)
    ultimately have 2: "x < pow2 (bitlen n - 1 + 1)" by simp
    from 1 2 True show ?thesis by (simp add: ilog2_def n_def)
  next
    case False
    define y where "y = 1 / x"
    define c where "c = \<lceil>y\<rceil>"
    have y1: "1 < y" using False assms by (simp add: y_def)
    then have c2: "2 \<le> c" unfolding c_def by (simp add: le_ceiling_iff)
    define b where "b = bitlen (c - 1)"
    from bitlen_bounds [of "c - 1"] c2
    have lo: "2 ^ nat (b - 1) \<le> c - 1" and hi: "c - 1 < 2 ^ nat b" by (simp_all add: b_def)
    have b1: "1 \<le> b"
    proof (rule ccontr)
      assume "\<not> 1 \<le> b"
      then have "nat b = 0" by simp
      with hi c2 show False by simp
    qed
    have "c \<le> 2 ^ nat b" using hi by simp
    then have "(of_int c :: rat) \<le> of_int (2 ^ nat b)" by (simp only: of_int_le_iff)
    then have "(of_int c :: rat) \<le> 2 ^ nat b" by simp
    moreover have "y \<le> of_int c" by (simp add: c_def)
    ultimately have yb: "y \<le> 2 ^ nat b" by (rule order_trans [rotated])
    have "(of_int (2 ^ nat (b - 1)) :: rat) \<le> of_int (c - 1)" using lo by (simp only: of_int_le_iff)
    then have "(2 ^ nat (b - 1) :: rat) \<le> of_int (c - 1)" by simp
    moreover have "of_int (c - 1) < y" unfolding c_def by linarith
    ultimately have yl: "2 ^ nat (b - 1) < y" by (rule le_less_trans)
    have x_eq: "x = 1 / y" by (simp add: y_def)
    have "1 / 2 ^ nat b \<le> 1 / y" using yb y1 by (simp add: frac_le)
    then have 1: "pow2 (- b) \<le> x" using b1 by (simp add: pow2_def x_eq)
    have "1 / y < 1 / 2 ^ nat (b - 1)" using yl by (simp add: frac_less2)
    moreover have "pow2 (- b + 1) = 1 / 2 ^ nat (b - 1)"
      using b1 by (auto simp: pow2_def)
    ultimately have 2: "x < pow2 (- b + 1)" by (simp add: x_eq)
    from 1 2 False show ?thesis by (simp add: ilog2_def b_def c_def y_def)
  qed
  then show "pow2 (ilog2 x) \<le> x" and "x < pow2 (ilog2 x + 1)" by simp_all
qed

lemma round_half_even_error: "\<bar>of_int (round_half_even y) - y\<bar> \<le> 1 / 2"
proof -
  define f where "f = \<lfloor>y\<rfloor>"
  have "of_int f \<le> y" "y < of_int f + 1" unfolding f_def by linarith+
  then show ?thesis
    unfolding round_half_even_def Let_def f_def [symmetric]
    by (auto simp: abs_if)
qed

lemma round_half_even_nonneg: "0 \<le> y \<Longrightarrow> 0 \<le> round_half_even y"
  by (auto simp: round_half_even_def Let_def)

lemma fl_error: "\<bar>fl x - x\<bar> \<le> \<bar>x\<bar> / 2 ^ 53"
proof (cases "x = 0")
  case True
  then show ?thesis by (simp add: fl_def)
next
  case False
  define a where "a = \<bar>x\<bar>"
  define e where "e = ilog2 a - 52"
  define m where "m = round_half_even (a / pow2 e)"
  have a0: "0 < a" using False by (simp add: a_def)
  have p: "0 < pow2 e" by (rule pow2_pos)
  have fl_eq: "fl x = sgn x * (of_int m * pow2 e)"
    using False by (simp add: fl_def Let_def a_def e_def m_def mult.assoc)
  have x_eq: "x = sgn x * a" by (simp add: a_def sgn_if)
  have "\<bar>fl x - x\<bar> = \<bar>sgn x * (of_int m * pow2 e - a)\<bar>"
    by (subst (2) x_eq) (simp add: fl_eq algebra_simps)
  also have "\<dots> = \<bar>of_int m * pow2 e - a\<bar>"
    using False by (simp add: abs_mult)
  also have "\<dots> = \<bar>of_int m - a / pow2 e\<bar> * pow2 e"
  proof -
    have "of_int m * pow2 e - a = (of_int m - a / pow2 e) * pow2 e"
      using p by (simp add: field_simps)
    then show ?thesis using p by (simp add: abs_mult)
  qed
  also have "\<dots> \<le> 1 / 2 * pow2 e"
    using round_half_even_error [of "a / pow2 e"] p by (simp add: m_def mult_right_mono)
  also have "\<dots> = pow2 (ilog2 a) / 2 ^ 53"
    using pow2_sub [of "ilog2 a" 52] by (simp add: e_def)
  also have "\<dots> \<le> a / 2 ^ 53"
    using ilog2_bounds(1) [OF a0] by (simp add: divide_right_mono)
  finally show ?thesis by (simp add: a_def)
qed

lemma fl_pos: "0 < x \<Longrightarrow> 0 < fl x"
proof -
  assume x: "0 < x"
  have "x / 2 ^ 53 < x" using x by simp
  with fl_error [of x] x show ?thesis by (simp add: abs_if split: if_splits)
qed

lemma fl_neg: "x < 0 \<Longrightarrow> fl x < 0"
proof -
  assume x: "x < 0"
  have "- x / 2 ^ 53 < - x" using x by simp
  with fl_error [of x] x show ?thesis by (simp add: abs_if split: if_splits)
qed

lemma fl_nonneg: "0 \<le> x \<Longrightarrow> 0 \<le> fl x"
  using fl_pos [of x] by (cases "x = 0") (simp_all add: fl_def less_imp_le)

section \<open>The compression ratio\<close>

lemma toFixed1_nearest:
  "\<bar>of_nat (nat \<lfloor>\<bar>x\<bar> * 10 + 1 / 2\<rfloor>) / 10 - \<bar>x\<bar>\<bar> \<le> 1 / (20 :: rat)"
proof -
  define z where "z = \<bar>x\<bar> * 10 + 1 / 2"
  define k where "k = \<lfloor>z\<rfloor>"
  have z0: "0 \<le> z" by (simp add: z_def)
  then have k0: "0 \<le> k" by (simp add: k_def)
  have "of_int k \<le> z" "z < of_int k + 1" unfolding k_def by linarith+
  then have "\<bar>of_int k / 10 - \<bar>x\<bar>\<bar> \<le> 1 / (20 :: rat)"
    by (simp add: z_def abs_if field_simps split: if_splits)
  moreover have "(of_nat (nat k) :: rat) = of_int k" using k0 by simp
  ultimately show ?thesis by (simp add: k_def z_def)
qed

lemma abs_chain:
  fixes x y z :: rat
  shows "\<bar>x - z\<bar> \<le> \<bar>x - y\<bar> + \<bar>y - z\<bar>"
  by linarith

lemma abs_chain2:
  fixes x r e d1 d2 :: rat
  assumes "\<bar>x - \<bar>r\<bar>\<bar> \<le> d1" and "\<bar>r - e\<bar> \<le> d2"
  shows "\<bar>x - \<bar>e\<bar>\<bar> \<le> d1 + d2"
  using assms by linarith

lemma ratio_rounding_error:
  fixes a :: rat
  shows "\<bar>js_mul (js_div a b) 100 - a / b * 100\<bar> \<le> \<bar>a / b * 100\<bar> / 2 ^ 51"
proof -
  define q where "q = a / b"
  define u where "u = (1 :: rat) / 2 ^ 53"
  have u: "0 < u" "u \<le> 1" by (simp_all add: u_def)
  have e1: "\<bar>fl q - q\<bar> \<le> \<bar>q\<bar> * u"
    using fl_error [of q] by (simp add: u_def)
  have e2: "\<bar>fl (fl q * 100) - fl q * 100\<bar> \<le> \<bar>fl q\<bar> * 100 * u"
    using fl_error [of "fl q * 100"] by (simp add: u_def abs_mult)
  have "\<bar>fl q\<bar> = \<bar>q + (fl q - q)\<bar>" by simp
  also have "\<dots> \<le> \<bar>q\<bar> + \<bar>fl q - q\<bar>" by (rule abs_triangle_ineq)
  finally have "\<bar>fl q\<bar> \<le> \<bar>q\<bar> + \<bar>q\<bar> * u" using e1 by simp
  also have "\<dots> \<le> \<bar>q\<bar> + \<bar>q\<bar> * 1" using u by (intro add_left_mono mult_left_mono) simp_all
  finally have f: "\<bar>fl q\<bar> \<le> 2 * \<bar>q\<bar>" by simp
  have "\<bar>fl q * 100 - q * 100\<bar> = \<bar>fl q - q\<bar> * 100"
    using abs_mult [of "fl q - q" 100] by (simp add: algebra_simps)
  then have "\<bar>fl (fl q * 100) - q * 100\<bar> \<le> \<bar>fl (fl q * 100) - fl q * 100\<bar> + \<bar>fl q - q\<bar> * 100"
    using abs_chain [of "fl (fl q * 100)" "fl q * 100" "q * 100"] by simp
  also have "\<dots> \<le> \<bar>fl q\<bar> * 100 * u + \<bar>q\<bar> * u * 100"
    using e1 e2 by (intro add_mono mult_right_mono) simp_all
  also have "\<dots> \<le> (2 * \<bar>q\<bar>) * 100 * u + \<bar>q\<bar> * u * 100"
    using f u by (intro add_right_mono mult_right_mono) simp_all
  also have "\<dots> = \<bar>q\<bar> * 100 * (3 * u)" by simp
  also have "\<dots> \<le> \<bar>q\<bar> * 100 * (1 / 2 ^ 51)"
    by (intro mult_left_mono) (simp_all add: u_def)
  finally show ?thesis by (simp add: js_mul_def js_div_def q_def abs_mult)
qed

lemma ratio_sign:
  fixes a b :: rat
  assumes "0 < b"
  shows "js_mul (js_div a b) 100 < 0 \<longleftrightarrow> a < 0"
proof (cases "a < 0")
  case True
  then have "a / b < 0" using assms by (simp add: divide_neg_pos)
  then have "fl (a / b) * 100 < 0" using fl_neg [of "a / b"] by simp
  then have "fl (fl (a / b) * 100) < 0" by (rule fl_neg)
  with True show ?thesis by (simp add: js_mul_def js_div_def)
next
  case False
  then have "0 \<le> a / b" using assms by simp
  then have "0 \<le> fl (a / b) * 100" using fl_nonneg [of "a / b"] by simp
  then have "0 \<le> fl (fl (a / b) * 100)" by (rule fl_nonneg)
  with False show ?thesis by (simp add: js_mul_def js_div_def not_less)
qed

lemma compression_ratio_reports:
  assumes "0 < size_in"
  shows "ratio_reports size_in size_out (compression_ratio size_in size_out)"
proof -
  define a :: rat where "a = of_int (int size_in - int size_out)"
  define b :: rat where "b = of_nat size_in"
  define r where "r = js_mul (js_div a b) 100"
  define n where "n = nat \<lfloor>\<bar>r\<bar> * 10 + 1 / 2\<rfloor>"
  have b: "0 < b" using assms by (simp add: b_def)
  have ex: "exact_percent size_in size_out = a / b * 100"
    by (simp add: exact_percent_def a_def b_def)
  have sign: "r < 0 \<longleftrightarrow> size_in < size_out"
    using ratio_sign [OF b, of a] by (simp add: r_def a_def)
  have s: "compression_ratio size_in size_out =
      (if size_in < size_out then [CHR ''-''] else [])
        @ string_of_nat (n div 10) @ [CHR ''.''] @ [digit_char (n mod 10)] @ [CHR ''%'']"
    using assms sign
    by (simp add: compression_ratio_def toFixed1_def Let_def n_def r_def a_def b_def)
  have "\<bar>of_nat n / 10 - \<bar>r\<bar>\<bar> \<le> 1 / 20"
    unfolding n_def by (rule toFixed1_nearest)
  moreover have "\<bar>r - a / b * 100\<bar> \<le> \<bar>a / b * 100\<bar> / 2 ^ 51"
    unfolding r_def by (rule ratio_rounding_error)
  ultimately have "\<bar>of_nat n / 10 - \<bar>a / b * 100\<bar>\<bar> \<le> 1 / 20 + \<bar>a / b * 100\<bar> / 2 ^ 51"
    by (rule abs_chain2)
  with s show ?thesis
    unfolding ratio_reports_def ex by blast
qed

lemma ratio_example_number: "js_mul (js_div 3 2000) 100 = 5404319552844595 / 36028797018963968"
  by code_simp

lemma ratio_example_tenths:
  "nat \<lfloor>\<bar>5404319552844595 / 36028797018963968 :: rat\<bar> * 10 + 1 / 2\<rfloor> = 1"
  by code_simp

lemma toFixed1_example: "toFixed1 (5404319552844595 / 36028797018963968) = ''0.1''"
  unfolding toFixed1_def Let_def ratio_example_tenths
  by (simp add: string_of_nat.simps digit_char_def)

lemma compression_ratio_example: "compression_ratio 2000 1997 = ''0.1%''"
  by (simp add: compression_ratio_def ratio_example_number toFixed1_example)

section \<open>Runs of the controllers when no send throws\<close>

lemma send_ok_deliver: "send_ok (deliver msg c) = send_ok c"
  by (simp add: send_ok_def deliver_def)

lemma no_send_errors_publish [simp]: "no_send_errors (publish ev w) = no_send_errors w"
  by (cases "wss w")
     (simp_all add: no_send_errors_def publish_def list_all_iff send_ok_deliver)

lemma no_send_errors_server [simp]: "no_send_errors (w\<lparr>server := s\<rparr>) = no_send_errors w"
  by (simp add: no_send_errors_def)

lemma published_publish [simp]: "published (publish ev w) = published w @ [ev]"
  by (simp add: publish_def)

lemma server_publish [simp]: "server (publish ev w) = server w"
  by (simp add: publish_def)

lemma image_relay_ok:
  "no_send_errors w \<Longrightarrow> image_relay p m w =
     (Inr (), publish \<lparr>progress = js_add 30 (js_mul p (fl (6 / 10))), message = m, error = None\<rparr> w)"
  by (simp add: image_relay_def broadcast_ok)

lemma pdf_relay_ok:
  "no_send_errors w \<Longrightarrow> pdf_relay p m w =
     (Inr (), publish \<lparr>progress = js_add 20 (js_mul p (fl (7 / 10))), message = m, error = None\<rparr> w)"
  by (simp add: pdf_relay_def broadcast_ok)

lemma relay_progress_pos: "0 < a \<Longrightarrow> 0 \<le> p \<Longrightarrow> 0 \<le> c \<Longrightarrow> 0 < js_add a (js_mul p (fl c))"
proof -
  assume a: "0 < a" and p: "0 \<le> p" and c: "0 \<le> c"
  from c have "0 \<le> fl c" by (rule fl_nonneg)
  with p have "0 \<le> p * fl c" by simp
  then have "0 \<le> fl (p * fl c)" by (rule fl_nonneg)
  with a have "0 < a + fl (p * fl c)" by simp
  then show ?thesis unfolding js_add_def js_mul_def by (rule fl_pos)
qed

lemmas prog_defs = try_catch_def and_then_def lift_def throws_def call_back_def pure_def raise_def

lemma convert_without_callback:
  "ImageConverter_convert rt lib None buf format level w
     = (fst (ImageConverter_convert rt lib None buf format level w0), w)"
  by (simp add: ImageConverter_convert_def prog_defs split: sum.splits option.splits)

lemma convert_relay_result:
  assumes "no_send_errors w"
  shows "fst (ImageConverter_convert rt lib (Some image_relay) buf format level w)
           = fst (ImageConverter_convert rt lib None buf format level w0)"
  using assms
  by (simp add: ImageConverter_convert_def prog_defs image_relay_ok
        split: sum.splits option.splits)

lemma convert_relay_world:
  assumes "no_send_errors w"
  shows "no_send_errors (snd (ImageConverter_convert rt lib (Some image_relay) buf format level w))"
    and "server (snd (ImageConverter_convert rt lib (Some image_relay) buf format level w)) = server w"
    and "published (snd (ImageConverter_convert rt lib (Some image_relay) buf format level w))
           = published w
             @ new_events w (snd (ImageConverter_convert rt lib (Some image_relay) buf format level w))"
    and "list_all (\<lambda>ev. 0 < progress ev \<and> error ev = None)
           (new_events w (snd (ImageConverter_convert rt lib (Some image_relay) buf format level w)))"
  using assms
  by (simp_all add: ImageConverter_convert_def prog_defs image_relay_ok new_events_def
        relay_progress_pos split: sum.splits option.splits)

lemma convert_failure_message:
  "fst (ImageConverter_convert rt lib cb buf format level w) = Inl e \<Longrightarrow>
     \<exists>e0. e = ''Failed to convert image: '' @ e0"
  by (auto simp: ImageConverter_convert_def try_catch_def raise_def split: prod.splits sum.splits)

lemma fst_eq_collapse: "fst p = a \<Longrightarrow> p = (a, snd p)"
  by (cases p) simp

lemma convertImage_adapter_failure:
  assumes ok: "no_send_errors w"
    and meta: "sharp_metadata lib buf = Inr m"
    and fail: "fst (ImageConverter_convert rt lib None buf format level w0) = Inl e"
  shows "fst (ImageController_convertImage rt lib t_name t_stamp t_sweep buf format level w)
           = Inl (''Image conversion failed: '' @ e)"
    and "terminal_failure ''Conversion failed'' e w
           (snd (ImageController_convertImage rt lib t_name t_stamp t_sweep buf format level w))"
proof -
  define w2 where "w2 =
    publish \<lparr>progress = 30, message = ''Starting conversion...'', error = None\<rparr>
      (publish \<lparr>progress = 10, message = ''Analyzing image...'', error = None\<rparr> w)"
  define W where "W = snd (ImageConverter_convert rt lib (Some image_relay) buf format level w2)"
  define evs where "evs = new_events w2 W"
  have ok2: "no_send_errors w2" using ok by (simp add: w2_def)
  have run: "ImageConverter_convert rt lib (Some image_relay) buf format level w2 = (Inl e, W)"
    unfolding W_def using convert_relay_result [OF ok2, of rt lib buf format level w0] fail
    by (simp add: fst_eq_collapse)
  have okW: "no_send_errors W"
    and pub: "published W = published w2 @ evs"
    and pos: "list_all (\<lambda>ev. 0 < progress ev \<and> error ev = None) evs"
    unfolding W_def evs_def using convert_relay_world [OF ok2] by blast+
  from convert_failure_message [OF fail] have ne: "e \<noteq> []" by auto
  have whole: "ImageController_convertImage rt lib t_name t_stamp t_sweep buf format level w
      = (Inl (''Image conversion failed: '' @ e),
         publish \<lparr>progress = 0, message = ''Conversion failed'', error = Some e\<rparr> W)"
    using ok okW run
    by (simp add: ImageController_convertImage_def prog_defs broadcast_ok meta w2_def)
  show "fst (ImageController_convertImage rt lib t_name t_stamp t_sweep buf format level w)
           = Inl (''Image conversion failed: '' @ e)"
    by (simp add: whole)
  show "terminal_failure ''Conversion failed'' e w
           (snd (ImageController_convertImage rt lib t_name t_stamp t_sweep buf format level w))"
    using pos ne
    by (simp add: whole terminal_failure_def new_events_def pub w2_def butlast_append)
qed

lemma publish_all_facts [simp]:
  "no_send_errors (fold publish evs w) = no_send_errors w"
  "published (fold publish evs w) = published w @ evs"
  "server (fold publish evs w) = server w"
  by (induction evs arbitrary: w) simp_all

lemma process_pages_ok:
  "no_send_errors w \<Longrightarrow>
   process_pages (Some pdf_relay) n s pages w
     = (Inr (), fold publish (map (page_event n) pages) w)"
  by (induction pages arbitrary: w)
     (simp_all add: prog_defs pdf_relay_ok optimizePage_def page_event_def)

lemma process_pages_without_callback: "process_pages None n s pages w = (Inr (), w)"
  by (induction pages arbitrary: w) (simp_all add: prog_defs optimizePage_def)

lemma applyCompression_ok:
  "no_send_errors w \<Longrightarrow>
   applyCompression (Some pdf_relay) n s w
     = (Inr (), publish \<lparr>progress = js_add 20 (js_mul 85 (fl (7 / 10))),
                         message = ''Applying document optimizations...'', error = None\<rparr>
                  (fold publish (map (page_event n) [0..<n]) w))"
  by (simp add: applyCompression_def process_pages_ok prog_defs pdf_relay_ok optimizeDocument_def)

lemma applyCompression_without_callback: "applyCompression None n s w = (Inr (), w)"
  by (simp add: applyCompression_def process_pages_without_callback prog_defs optimizeDocument_def)

lemma page_event_pos: "0 < progress (page_event n i) \<and> error (page_event n i) = None"
proof -
  have "0 \<le> js_div (of_nat i) (of_nat n)" unfolding js_div_def by (rule fl_nonneg) simp
  then have "0 \<le> js_mul (js_div (of_nat i) (of_nat n)) 40"
    unfolding js_mul_def by (intro fl_nonneg) simp
  then have "0 \<le> js_add 50 (js_mul (js_div (of_nat i) (of_nat n)) 40)"
    unfolding js_add_def by (intro fl_nonneg) simp
  then show ?thesis by (simp add: page_event_def relay_progress_pos)
qed

lemma compress_relay_result:
  assumes "no_send_errors w"
  shows "fst (PDFConverter_compress lib (Some pdf_relay) buf level w)
           = fst (PDFConverter_compress lib None buf level w0)"
  using assms
  by (simp add: PDFConverter_compress_def prog_defs pdf_relay_ok applyCompression_ok
        applyCompression_without_callback split: sum.splits option.splits)

lemma compress_relay_world:
  assumes "no_send_errors w"
  shows "no_send_errors (snd (PDFConverter_compress lib (Some pdf_relay) buf level w))"
    and "server (snd (PDFConverter_compress lib (Some pdf_relay) buf level w)) = server w"
    and "published (snd (PDFConverter_compress lib (Some pdf_relay) buf level w))
           = published w @ new_events w (snd (PDFConverter_compress lib (Some pdf_relay) buf level w))"
    and "list_all (\<lambda>ev. 0 < progress ev \<and> error ev = None)
           (new_events w (snd (PDFConverter_compress lib (Some pdf_relay) buf level w)))"
  using assms
  by (simp_all add: PDFConverter_compress_def prog_defs pdf_relay_ok applyCompression_ok
        new_events_def relay_progress_pos list_all_iff page_event_pos
        split: sum.splits option.splits)

lemma compress_failure_message:
  "fst (PDFConverter_compress lib cb buf level w) = Inl e \<Longrightarrow>
     \<exists>e0. e = ''Failed to compress PDF: '' @ e0"
  by (auto simp: PDFConverter_compress_def try_catch_def raise_def split: prod.splits sum.splits)

lemma compressPDF_adapter_failure:
  assumes ok: "no_send_errors w"
    and load: "pdf_load lib buf = Inr n"
    and fail: "fst (PDFConverter_compress lib None buf level w0) = Inl e"
  shows "fst (PDFController_compressPDF lib t_name t_stamp t_sweep buf level w)
           = Inl (''PDF compression failed: '' @ e)"
    and "terminal_failure ''Compression failed'' e w
           (snd (PDFController_compressPDF lib t_name t_stamp t_sweep buf level w))"
proof -
  define w2 where "w2 =
    publish \<lparr>progress = 20,
             message = ''Processing PDF with '' @ string_of_nat n @ '' pages...'', error = None\<rparr>
      (publish \<lparr>progress = 10, message = ''Analyzing PDF...'', error = None\<rparr> w)"
  define W where "W = snd (PDFConverter_compress lib (Some pdf_relay) buf level w2)"
  define evs where "evs = new_events w2 W"
  have ok2: "no_send_errors w2" using ok by (simp add: w2_def)
  have run: "PDFConverter_compress lib (Some pdf_relay) buf level w2 = (Inl e, W)"
    unfolding W_def using compress_relay_result [OF ok2, of lib buf level w0] fail
    by (simp add: fst_eq_collapse)
  have okW: "no_send_errors W"
    and pub: "published W = published w2 @ evs"
    and pos: "list_all (\<lambda>ev. 0 < progress ev \<and> error ev = None) evs"
    unfolding W_def evs_def using compress_relay_world [OF ok2] by blast+
  from compress_failure_message [OF fail] have ne: "e \<noteq> []" by auto
  have whole: "PDFController_compressPDF lib t_name t_stamp t_sweep buf level w
      = (Inl (''PDF compression failed: '' @ e),
         publish \<lparr>progress = 0, message = ''Compression failed'', error = Some e\<rparr> W)"
    using ok okW run
    by (simp add: PDFController_compressPDF_def prog_defs broadcast_ok load w2_def)
  show "fst (PDFController_compressPDF lib t_name t_stamp t_sweep buf level w)
           = Inl (''PDF compression failed: '' @ e)"
    by (simp add: whole)
  show "terminal_failure ''Compression failed'' e w
           (snd (PDFController_compressPDF lib t_name t_stamp t_sweep buf level w))"
    using pos ne
    by (simp add: whole terminal_failure_def new_events_def pub w2_def butlast_append)
qed

lemma post_image_failure:
  assumes "fileData \<noteq> []" and "format \<noteq> []" and "level \<noteq> []"
    and "fst (ImageController_convertImage rt lib t_name t_stamp t_sweep (decode fileData)
                format level w) = Inl e"
    and "e \<noteq> []"
  shows "fst (post_image rt lib decode t_name t_stamp t_sweep
           \<lparr>req_outputFormat = Some format, req_compressionLevel = Some level,
            req_fileData = Some fileData\<rparr> w) = Error_json 500 e"
  using assms
  by (auto simp: post_image_def truthy_def level_or_medium_def split: prod.splits sum.splits)

lemma post_pdf_failure:
  assumes "fileData \<noteq> []" and "level \<noteq> []"
    and "fst (PDFController_compressPDF lib t_name t_stamp t_sweep (decode fileData) level w)
           = Inl e"
    and "e \<noteq> []"
  shows "fst (post_pdf lib decode t_name t_stamp t_sweep
           \<lparr>req_outputFormat = fmt, req_compressionLevel = Some level,
            req_fileData = Some fileData\<rparr> w) = Error_json 500 e"
  using assms
  by (auto simp: post_pdf_def truthy_def level_or_medium_def split: prod.splits sum.splits)

text \<open>
  C3. Let no \<open>send\<close> of an open client throw. When the metadata of the image have been
  read and the adapter \<open>ImageConverter.convert\<close> fails on the input with the error text
  \<open>e\<close>, then \<open>convertImage\<close> throws \<open>Image conversion failed: e\<close>; the events it has
  published end with one event of percent 0, message \<open>Conversion failed\<close> and the non-empty
  error text \<open>e\<close>, and every event before that one has a positive percent and no error
  field; the route answers with status 500 and the thrown message. The same holds for
  \<open>compressPDF\<close> when the document has been loaded and \<open>PDFConverter.compress\<close> fails.
\<close>

theorem adapter_failure_is_published_and_propagated:
  "(no_send_errors w \<and> sharp_metadata lib (decode fileData) = Inr m
      \<and> fst (ImageConverter_convert rt lib None (decode fileData) format level w) = Inl e
      \<and> fileData \<noteq> [] \<and> format \<noteq> [] \<and> level \<noteq> [] \<longrightarrow>
        fst (ImageController_convertImage rt lib t_name t_stamp t_sweep (decode fileData)
               format level w) = Inl (''Image conversion failed: '' @ e)
      \<and> terminal_failure ''Conversion failed'' e w
           (snd (ImageController_convertImage rt lib t_name t_stamp t_sweep (decode fileData)
                   format level w))
      \<and> fst (post_image rt lib decode t_name t_stamp t_sweep
           \<lparr>req_outputFormat = Some format, req_compressionLevel = Some level,
            req_fileData = Some fileData\<rparr> w)
          = Error_json 500 (''Image conversion failed: '' @ e))
   \<and> (no_send_errors w \<and> pdf_load plib (decode fileData) = Inr n
        \<and> fst (PDFConverter_compress plib None (decode fileData) level w) = Inl e
        \<and> fileData \<noteq> [] \<and> level \<noteq> [] \<longrightarrow>
        fst (PDFController_compressPDF plib t_name t_stamp t_sweep (decode fileData) level w)
          = Inl (''PDF compression failed: '' @ e)
      \<and> terminal_failure ''Compression failed'' e w
           (snd (PDFController_compressPDF plib t_name t_stamp t_sweep (decode fileData) level w))
      \<and> fst (post_pdf plib decode t_name t_stamp t_sweep
           \<lparr>req_outputFormat = None, req_compressionLevel = Some level,
            req_fileData = Some fileData\<rparr> w)
          = Error_json 500 (''PDF compression failed: '' @ e))"
proof (intro conjI impI)
  assume a: "no_send_errors w \<and> sharp_metadata lib (decode fileData) = Inr m
      \<and> fst (ImageConverter_convert rt lib None (decode fileData) format level w) = Inl e
      \<and> fileData \<noteq> [] \<and> format \<noteq> [] \<and> level \<noteq> []"
  then have ok: "no_send_errors w" and meta: "sharp_metadata lib (decode fileData) = Inr m"
    and fail: "fst (ImageConverter_convert rt lib None (decode fileData) format level w) = Inl e"
    and ne: "fileData \<noteq> []" "format \<noteq> []" "level \<noteq> []"
    by simp_all
  from convert_failure_message [OF fail] have e: "''Image conversion failed: '' @ e \<noteq> []"
    by simp
  show f: "fst (ImageController_convertImage rt lib t_name t_stamp t_sweep (decode fileData)
               format level w) = Inl (''Image conversion failed: '' @ e)"
    by (rule convertImage_adapter_failure(1) [OF ok meta fail])
  show "terminal_failure ''Conversion failed'' e w
           (snd (ImageController_convertImage rt lib t_name t_stamp t_sweep (decode fileData)
                   format level w))"
    by (rule convertImage_adapter_failure(2) [OF ok meta fail])
  show "fst (post_image rt lib decode t_name t_stamp t_sweep
           \<lparr>req_outputFormat = Some format, req_compressionLevel = Some level,
            req_fileData = Some fileData\<rparr> w)
          = Error_json 500 (''Image conversion failed: '' @ e)"
    by (rule post_image_failure [where decode = decode, OF ne f e])
next
  assume a: "no_send_errors w \<and> pdf_load plib (decode fileData) = Inr n
        \<and> fst (PDFConverter_compress plib None (decode fileData) level w) = Inl e
        \<and> fileData \<noteq> [] \<and> level \<noteq> []"
  then have ok: "no_send_errors w" and load: "pdf_load plib (decode fileData) = Inr n"
    and fail: "fst (PDFConverter_compress plib None (decode fileData) level w) = Inl e"
    and ne: "fileData \<noteq> []" "level \<noteq> []"
    by simp_all
  have e: "''PDF compression failed: '' @ e \<noteq> []" by simp
  show f: "fst (PDFController_compressPDF plib t_name t_stamp t_sweep (decode fileData) level w)
          = Inl (''PDF compression failed: '' @ e)"
    by (rule compressPDF_adapter_failure(1) [OF ok load fail])
  show "terminal_failure ''Compression failed'' e w
           (snd (PDFController_compressPDF plib t_name t_stamp t_sweep (decode fileData) level w))"
    by (rule compressPDF_adapter_failure(2) [OF ok load fail])
  show "fst (post_pdf plib decode t_name t_stamp t_sweep
           \<lparr>req_outputFormat = None, req_compressionLevel = Some level,
            req_fileData = Some fileData\<rparr> w)
          = Error_json 500 (''PDF compression failed: '' @ e)"
    by (rule post_pdf_failure [where decode = decode, OF ne f e])
qed

lemma no_send_errors_initial: "no_send_errors initial_world"
  by (simp add: no_send_errors_def initial_world_def)

lemma example_image_adapter_fails:
  "fst (ImageConverter_convert example_runtime example_failing_sharp None buf ''jpg'' ''medium'' w)
     = Inl ''Failed to convert image: corrupt header''"
proof -
  have l: "toLowerCase ''jpg'' = ''jpg''" by (simp add: toLowerCase_def lower_char_def)
  have s: "ImageConverter_getCompressionSettings example_runtime ''jpg'' ''medium''
      = Inr (Options [(''quality'', Num 75), (''progressive'', Bool True)])"
    by (simp add: ImageConverter_getCompressionSettings_def l)
       (simp add: get_prop_def image_settings_table_def)
  show ?thesis
    by (simp add: ImageConverter_convert_def prog_defs s choose_encoder_def l
          example_failing_sharp_def)
qed

lemma example_pdf_adapter_fails:
  "fst (PDFConverter_compress example_failing_pdf_lib None buf ''medium'' w)
     = Inl ''Failed to compress PDF: save failed''"
  by (simp add: PDFConverter_compress_def prog_defs applyCompression_without_callback
        example_failing_pdf_lib_def)

theorem adapter_failure_is_published_and_propagated_witness:
  "no_send_errors initial_world
   \<and> sharp_metadata example_failing_sharp ((\<lambda>s. [0x89, 0x50]) ''iVA='')
       = Inr \<lparr>meta_format = ''png'', width = 1, height = 1\<rparr>
   \<and> fst (ImageConverter_convert example_runtime example_failing_sharp None
            ((\<lambda>s. [0x89, 0x50]) ''iVA='') ''jpg'' ''medium'' initial_world)
       = Inl ''Failed to convert image: corrupt header''
   \<and> fst (post_image example_runtime example_failing_sharp (\<lambda>s. [0x89, 0x50]) 0 0 0
           \<lparr>req_outputFormat = Some ''jpg'', req_compressionLevel = Some ''medium'',
            req_fileData = Some ''iVA=''\<rparr> initial_world)
       = Error_json 500 ''Image conversion failed: Failed to convert image: corrupt header''
   \<and> pdf_load example_failing_pdf_lib ((\<lambda>s. [0x89, 0x50]) ''iVA='') = Inr 10
   \<and> fst (PDFConverter_compress example_failing_pdf_lib None
            ((\<lambda>s. [0x89, 0x50]) ''iVA='') ''medium'' initial_world)
       = Inl ''Failed to compress PDF: save failed''
   \<and> terminal_failure ''Compression failed'' ''Failed to compress PDF: save failed''
        initial_world
        (snd (PDFController_compressPDF example_failing_pdf_lib 0 0 0
               ((\<lambda>s. [0x89, 0x50]) ''iVA='') ''medium'' initial_world))"
proof -
  have h1: "sharp_metadata example_failing_sharp ((\<lambda>s. [0x89, 0x50]) ''iVA='')
       = Inr \<lparr>meta_format = ''png'', width = 1, height = 1\<rparr>"
    by (simp add: example_failing_sharp_def)
  have h2: "pdf_load example_failing_pdf_lib ((\<lambda>s. [0x89, 0x50]) ''iVA='') = Inr 10"
    by (simp add: example_failing_pdf_lib_def)
  show ?thesis
    using no_send_errors_initial h1 h2
      example_image_adapter_fails [of "(\<lambda>s. [0x89, 0x50]) ''iVA=''" initial_world]
      example_pdf_adapter_fails [of "(\<lambda>s. [0x89, 0x50]) ''iVA=''" initial_world]
      adapter_failure_is_published_and_propagated
        [where w = initial_world and lib = example_failing_sharp
           and decode = "\<lambda>s. [0x89, 0x50]" and fileData = "''iVA=''"
           and m = "\<lparr>meta_format = ''png'', width = 1, height = 1\<rparr>"
           and rt = example_runtime and format = "''jpg''" and level = "''medium''"
           and e = "''Failed to convert image: corrupt header''"
           and t_name = 0 and t_stamp = 0 and t_sweep = 0 and plib = example_failing_pdf_lib
           and n = 10]
      adapter_failure_is_published_and_propagated
        [where w = initial_world and plib = example_failing_pdf_lib
           and decode = "\<lambda>s. [0x89, 0x50]" and fileData = "''iVA=''"
           and level = "''medium''" and n = 10
           and e = "''Failed to compress PDF: save failed''"
           and t_name = 0 and t_stamp = 0 and t_sweep = 0]
    by simp
qed

section \<open>Sizes and ratio of a successful conversion\<close>

lemma convert_success_output:
  "fst (ImageConverter_convert rt lib cb buf format level w) = Inr out \<Longrightarrow>
     \<exists>enc. sharp_toBuffer lib buf enc = Inr out"
  by (auto simp: ImageConverter_convert_def prog_defs split: prod.splits sum.splits option.splits)

lemma convertImage_success:
  assumes "fst (ImageController_convertImage rt lib t_name t_stamp t_sweep buf format level w)
             = Inr res"
  shows "\<exists>enc out. sharp_toBuffer lib buf enc = Inr out
           \<and> originalSize res = length buf \<and> convertedSize res = length out
           \<and> compressionRatio res = compression_ratio (length buf) (length out)"
proof -
  from assms have "\<exists>out w1 w2.
      ImageConverter_convert rt lib (Some image_relay) buf format level w1 = (Inr out, w2)
      \<and> originalSize res = length buf \<and> convertedSize res = length out
      \<and> compressionRatio res = compression_ratio (length buf) (length out)"
    by (auto simp: ImageController_convertImage_def prog_defs store_image_def
          split: prod.splits sum.splits intro!: exI)
  then obtain out w1 w2 where
    c: "ImageConverter_convert rt lib (Some image_relay) buf format level w1 = (Inr out, w2)"
    and r: "originalSize res = length buf \<and> convertedSize res = length out
           \<and> compressionRatio res = compression_ratio (length buf) (length out)"
    by blast
  from c have "fst (ImageConverter_convert rt lib (Some image_relay) buf format level w1) = Inr out"
    by simp
  from convert_success_output [OF this] r show ?thesis by blast
qed

lemma compress_success_output:
  "fst (PDFConverter_compress lib cb buf level w) = Inr out \<Longrightarrow>
     \<exists>u m. pdf_save lib buf u m = Inr out"
  by (auto simp: PDFConverter_compress_def prog_defs split: prod.splits sum.splits option.splits)

lemma compressPDF_success:
  assumes "fst (PDFController_compressPDF lib t_name t_stamp t_sweep buf level w) = Inr res"
  shows "\<exists>u m out. pdf_save lib buf u m = Inr out
           \<and> pdf_originalSize res = length buf \<and> compressedSize res = length out
           \<and> pdf_compressionRatio res = compression_ratio (length buf) (length out)"
proof -
  from assms have "\<exists>out w1 w2.
      PDFConverter_compress lib (Some pdf_relay) buf level w1 = (Inr out, w2)
      \<and> pdf_originalSize res = length buf \<and> compressedSize res = length out
      \<and> pdf_compressionRatio res = compression_ratio (length buf) (length out)"
    by (auto simp: PDFController_compressPDF_def prog_defs store_pdf_def
          split: prod.splits sum.splits intro!: exI)
  then obtain out w1 w2 where
    c: "PDFConverter_compress lib (Some pdf_relay) buf level w1 = (Inr out, w2)"
    and r: "pdf_originalSize res = length buf \<and> compressedSize res = length out
           \<and> pdf_compressionRatio res = compression_ratio (length buf) (length out)"
    by blast
  from c have "fst (PDFConverter_compress lib (Some pdf_relay) buf level w1) = Inr out"
    by simp
  from compress_success_output [OF this] r show ?thesis by blast
qed

text \<open>
  C7. When \<open>convertImage\<close> returns a result for a non-empty input, \<open>originalSize\<close> is the
  length of the input buffer, \<open>convertedSize\<close> is the length of the buffer that \<open>toBuffer\<close>
  produced, and \<open>compressionRatio\<close> reports the exact percentage
  \<open>(originalSize - convertedSize) / originalSize * 100\<close>: a minus sign exactly when the
  output is larger than the input (nothing is clamped), a numeral with one decimal place
  within half a unit of the last place of the magnitude (up to the binary64 rounding of the
  division and the multiplication), and a trailing \<open>%\<close>. The same holds for
  \<open>compressPDF\<close> with \<open>compressedSize\<close> and the buffer that \<open>save\<close> produced.
\<close>

theorem sizes_and_ratio_of_successful_conversion:
  "(fst (ImageController_convertImage rt lib t_name t_stamp t_sweep buf format level w) = Inr res
      \<and> buf \<noteq> [] \<longrightarrow>
        originalSize res = length buf
      \<and> (\<exists>enc out. sharp_toBuffer lib buf enc = Inr out \<and> convertedSize res = length out)
      \<and> compressionRatio res = compression_ratio (originalSize res) (convertedSize res)
      \<and> ratio_reports (originalSize res) (convertedSize res) (compressionRatio res))
   \<and> (fst (PDFController_compressPDF plib t_name t_stamp t_sweep buf level w) = Inr pres
        \<and> buf \<noteq> [] \<longrightarrow>
        pdf_originalSize pres = length buf
      \<and> (\<exists>u m out. pdf_save plib buf u m = Inr out \<and> compressedSize pres = length out)
      \<and> pdf_compressionRatio pres = compression_ratio (pdf_originalSize pres) (compressedSize pres)
      \<and> ratio_reports (pdf_originalSize pres) (compressedSize pres) (pdf_compressionRatio pres))"
proof (intro conjI impI)
  assume a: "fst (ImageController_convertImage rt lib t_name t_stamp t_sweep buf format level w)
      = Inr res \<and> buf \<noteq> []"
  then obtain enc out where o: "sharp_toBuffer lib buf enc = Inr out"
    and s: "originalSize res = length buf" "convertedSize res = length out"
    and r: "compressionRatio res = compression_ratio (length buf) (length out)"
    using convertImage_success by blast
  from a have pos: "0 < length buf" by simp
  show "originalSize res = length buf" by (rule s)
  show "\<exists>enc out. sharp_toBuffer lib buf enc = Inr out \<and> convertedSize res = length out"
    using o s by blast
  show "compressionRatio res = compression_ratio (originalSize res) (convertedSize res)"
    by (simp add: s r)
  show "ratio_reports (originalSize res) (convertedSize res) (compressionRatio res)"
    unfolding s r by (rule compression_ratio_reports [OF pos])
next
  assume a: "fst (PDFController_compressPDF plib t_name t_stamp t_sweep buf level w) = Inr pres
      \<and> buf \<noteq> []"
  then obtain u m out where o: "pdf_save plib buf u m = Inr out"
    and s: "pdf_originalSize pres = length buf" "compressedSize pres = length out"
    and r: "pdf_compressionRatio pres = compression_ratio (length buf) (length out)"
    using compressPDF_success by blast
  from a have pos: "0 < length buf" by simp
  show "pdf_originalSize pres = length buf" by (rule s)
  show "\<exists>u m out. pdf_save plib buf u m = Inr out \<and> compressedSize pres = length out"
    using o s by blast
  show "pdf_compressionRatio pres = compression_ratio (pdf_originalSize pres) (compressedSize pres)"
    by (simp add: s r)
  show "ratio_reports (pdf_originalSize pres) (compressedSize pres) (pdf_compressionRatio pres)"
    unfolding s r by (rule compression_ratio_reports [OF pos])
qed

section \<open>Progress on the path without errors\<close>

lemma convert_relay_success_events:
  assumes "no_send_errors w"
    and "fst (ImageConverter_convert rt lib None buf format level w0) = Inr out"
  shows "new_events w (snd (ImageConverter_convert rt lib (Some image_relay) buf format level w))
           = [relayed 30 (6 / 10) 10 ''Initializing conversion...'',
              relayed 30 (6 / 10) 30 ''Applying compression settings...'',
              relayed 30 (6 / 10) 60 ''Converting image...'',
              relayed 30 (6 / 10) 90 ''Finalizing conversion...'',
              relayed 30 (6 / 10) 100 ''Conversion complete!'']"
  using assms
  by (auto simp: ImageConverter_convert_def prog_defs image_relay_ok new_events_def relayed_def
        split: sum.splits option.splits)

lemma convertImage_success_run:
  assumes ok: "no_send_errors w"
    and meta: "sharp_metadata lib buf = Inr m"
    and conv: "fst (ImageConverter_convert rt lib None buf format level w0) = Inr out"
  shows "fst (ImageController_convertImage rt lib t_name t_stamp t_sweep buf format level w)
           = Inr \<lparr>downloadUrl = fst (ImageController_storeForDownload t_name t_stamp t_sweep
                                        out format (server w)),
                  outputFormat = format, originalSize = length buf,
                  convertedSize = length out,
                  compressionRatio = compression_ratio (length buf) (length out)\<rparr>"
    and "new_events w
           (snd (ImageController_convertImage rt lib t_name t_stamp t_sweep buf format level w))
           = image_success_events"
proof -
  define w2 where "w2 =
    publish \<lparr>progress = 30, message = ''Starting conversion...'', error = None\<rparr>
      (publish \<lparr>progress = 10, message = ''Analyzing image...'', error = None\<rparr> w)"
  define W where "W = snd (ImageConverter_convert rt lib (Some image_relay) buf format level w2)"
  have ok2: "no_send_errors w2" using ok by (simp add: w2_def)
  have run: "ImageConverter_convert rt lib (Some image_relay) buf format level w2 = (Inr out, W)"
    unfolding W_def using convert_relay_result [OF ok2, of rt lib buf format level w0] conv
    by (simp add: fst_eq_collapse)
  have okW: "no_send_errors W" and srv: "server W = server w"
    unfolding W_def using convert_relay_world(1,2) [OF ok2] by (simp_all add: w2_def)
  have pub: "published W = published w2
      @ [relayed 30 (6 / 10) 10 ''Initializing conversion...'',
         relayed 30 (6 / 10) 30 ''Applying compression settings...'',
         relayed 30 (6 / 10) 60 ''Converting image...'',
         relayed 30 (6 / 10) 90 ''Finalizing conversion...'',
         relayed 30 (6 / 10) 100 ''Conversion complete!'']"
    unfolding W_def
    using convert_relay_world(3) [OF ok2, of rt lib buf format level]
      convert_relay_success_events [OF ok2 conv]
    by simp
  obtain url s' where st: "ImageController_storeForDownload t_name t_stamp t_sweep out format
      (server w) = (url, s')"
    by (cases "ImageController_storeForDownload t_name t_stamp t_sweep out format (server w)")
  have whole: "ImageController_convertImage rt lib t_name t_stamp t_sweep buf format level w
      = (Inr \<lparr>downloadUrl = url, outputFormat = format, originalSize = length buf,
               convertedSize = length out,
               compressionRatio = compression_ratio (length buf) (length out)\<rparr>,
         publish \<lparr>progress = 100, message = ''Conversion completed!'', error = None\<rparr>
           ((publish \<lparr>progress = 90, message = ''Preparing download...'', error = None\<rparr> W)
              \<lparr>server := s'\<rparr>))"
    using ok okW run
    by (simp add: ImageController_convertImage_def prog_defs broadcast_ok meta w2_def
          store_image_def srv st)
  show "fst (ImageController_convertImage rt lib t_name t_stamp t_sweep buf format level w)
           = Inr \<lparr>downloadUrl = fst (ImageController_storeForDownload t_name t_stamp t_sweep
                                        out format (server w)),
                  outputFormat = format, originalSize = length buf,
                  convertedSize = length out,
                  compressionRatio = compression_ratio (length buf) (length out)\<rparr>"
    by (simp add: whole st)
  show "new_events w
           (snd (ImageController_convertImage rt lib t_name t_stamp t_sweep buf format level w))
           = image_success_events"
    by (simp add: whole new_events_def pub w2_def image_success_events_def)
qed

lemma compress_relay_success_events:
  assumes "no_send_errors w"
    and "pdf_load lib buf = Inr n"
    and "fst (PDFConverter_compress lib None buf level w0) = Inr out"
  shows "new_events w (snd (PDFConverter_compress lib (Some pdf_relay) buf level w))
           = [relayed 20 (7 / 10) 10 ''Loading PDF document...'',
              relayed 20 (7 / 10) 30 ''Analyzing document structure...'',
              relayed 20 (7 / 10) 50 ''Applying compression...'']
             @ map (page_event n) [0..<n]
             @ [relayed 20 (7 / 10) 85 ''Applying document optimizations...'',
                relayed 20 (7 / 10) 90 ''Generating compressed PDF...'',
                relayed 20 (7 / 10) 100 ''Compression complete!'']"
  using assms
  by (auto simp: PDFConverter_compress_def prog_defs pdf_relay_ok applyCompression_ok
        applyCompression_without_callback new_events_def relayed_def
        split: sum.splits option.splits)

lemma compressPDF_success_run:
  assumes ok: "no_send_errors w"
    and load: "pdf_load lib buf = Inr n"
    and conv: "fst (PDFConverter_compress lib None buf level w0) = Inr out"
  shows "fst (PDFController_compressPDF lib t_name t_stamp t_sweep buf level w)
           = Inr \<lparr>pdf_downloadUrl = fst (PDFController_storeForDownload t_name t_stamp t_sweep
                                            out (server w)),
                  pdf_originalSize = length buf, compressedSize = length out,
                  pdf_compressionRatio = compression_ratio (length buf) (length out)\<rparr>"
    and "new_events w (snd (PDFController_compressPDF lib t_name t_stamp t_sweep buf level w))
           = pdf_success_events n"
proof -
  define w2 where "w2 =
    publish \<lparr>progress = 20,
             message = ''Processing PDF with '' @ string_of_nat n @ '' pages...'', error = None\<rparr>
      (publish \<lparr>progress = 10, message = ''Analyzing PDF...'', error = None\<rparr> w)"
  define W where "W = snd (PDFConverter_compress lib (Some pdf_relay) buf level w2)"
  have ok2: "no_send_errors w2" using ok by (simp add: w2_def)
  have run: "PDFConverter_compress lib (Some pdf_relay) buf level w2 = (Inr out, W)"
    unfolding W_def using compress_relay_result [OF ok2, of lib buf level w0] conv
    by (simp add: fst_eq_collapse)
  have okW: "no_send_errors W" and srv: "server W = server w"
    unfolding W_def using compress_relay_world(1,2) [OF ok2] by (simp_all add: w2_def)
  have pub: "published W = published w2
      @ [relayed 20 (7 / 10) 10 ''Loading PDF document...'',
         relayed 20 (7 / 10) 30 ''Analyzing document structure...'',
         relayed 20 (7 / 10) 50 ''Applying compression...'']
      @ map (page_event n) [0..<n]
      @ [relayed 20 (7 / 10) 85 ''Applying document optimizations...'',
         relayed 20 (7 / 10) 90 ''Generating compressed PDF...'',
         relayed 20 (7 / 10) 100 ''Compression complete!'']"
    unfolding W_def
    using compress_relay_world(3) [OF ok2, of lib buf level]
      compress_relay_success_events [OF ok2 load conv]
    by simp
  obtain url s' where st: "PDFController_storeForDownload t_name t_stamp t_sweep out (server w)
      = (url, s')"
    by (cases "PDFController_storeForDownload t_name t_stamp t_sweep out (server w)")
  have whole: "PDFController_compressPDF lib t_name t_stamp t_sweep buf level w
      = (Inr \<lparr>pdf_downloadUrl = url, pdf_originalSize = length buf, compressedSize = length out,
               pdf_compressionRatio = compression_ratio (length buf) (length out)\<rparr>,
         publish \<lparr>progress = 100, message = ''Compression completed!'', error = None\<rparr>
           ((publish \<lparr>progress = 90, message = ''Preparing download...'', error = None\<rparr> W)
              \<lparr>server := s'\<rparr>))"
    using ok okW run
    by (simp add: PDFController_compressPDF_def prog_defs broadcast_ok load w2_def
          store_pdf_def srv st)
  show "fst (PDFController_compressPDF lib t_name t_stamp t_sweep buf level w)
           = Inr \<lparr>pdf_downloadUrl = fst (PDFController_storeForDownload t_name t_stamp t_sweep
                                            out (server w)),
                  pdf_originalSize = length buf, compressedSize = length out,
                  pdf_compressionRatio = compression_ratio (length buf) (length out)\<rparr>"
    by (simp add: whole st)
  show "new_events w (snd (PDFController_compressPDF lib t_name t_stamp t_sweep buf level w))
           = pdf_success_events n"
    by (simp add: whole new_events_def pub w2_def pdf_success_events_def)
qed

section \<open>Two runs evaluated\<close>

lemma growth_example_number: "js_mul (js_div (- 1) 4) 100 = - 25"
  by code_simp

lemma growth_example_tenths: "nat \<lfloor>\<bar>- 25 :: rat\<bar> * 10 + 1 / 2\<rfloor> = 250"
  by code_simp

lemma string_of_nat_25: "string_of_nat 25 = ''25''"
  by (simp add: string_of_nat.simps digit_char_def)

lemma toFixed1_growth_example: "toFixed1 (- 25) = ''-25.0''"
  unfolding toFixed1_def Let_def growth_example_tenths
  by (simp add: string_of_nat_25 digit_char_def)

lemma compression_ratio_growth_example: "compression_ratio 4 5 = ''-25.0%''"
  by (simp add: compression_ratio_def growth_example_number toFixed1_growth_example)

lemma compression_ratio_growth_lengths:
  "compression_ratio (Suc (Suc (Suc (Suc 0)))) (Suc (Suc (Suc (Suc (Suc 0))))) = ''-25.0%''"
proof -
  have "Suc (Suc (Suc (Suc 0))) = 4" "Suc (Suc (Suc (Suc (Suc 0)))) = 5" by simp_all
  then show ?thesis by (simp only: compression_ratio_growth_example)
qed

lemma example_image_adapter_result:
  "fst (ImageConverter_convert example_runtime example_sharp None buf ''jpg'' ''high'' w)
     = Inr (buf @ [0xD9])"
proof -
  have l: "toLowerCase ''jpg'' = ''jpg''" by (simp add: toLowerCase_def lower_char_def)
  have s: "ImageConverter_getCompressionSettings example_runtime ''jpg'' ''high''
      = Inr (Options [(''quality'', Num 60), (''progressive'', Bool True), (''mozjpeg'', Bool True)])"
    by (simp add: ImageConverter_getCompressionSettings_def l)
       (simp add: get_prop_def image_settings_table_def)
  show ?thesis
    by (simp add: ImageConverter_convert_def prog_defs s choose_encoder_def l example_sharp_def)
qed

lemma example_pdf_adapter_result:
  "fst (PDFConverter_compress example_pdf_lib None buf ''medium'' w) = Inr (buf @ [0x0A])"
  by (simp add: PDFConverter_compress_def prog_defs applyCompression_without_callback
        example_pdf_lib_def)

lemma example_image_run_result:
  "fst example_image_run =
     Inr \<lparr>downloadUrl = ''/api/convert/download/converted_1700000000000.jpg'',
          outputFormat = ''jpg'', originalSize = 4, convertedSize = 5,
          compressionRatio = ''-25.0%''\<rparr>"
proof -
  have m: "sharp_metadata example_sharp [0xFF, 0xD8, 0xFF, 0xE0]
      = Inr \<lparr>meta_format = ''png'', width = 1, height = 1\<rparr>"
    by (simp add: example_sharp_def)
  show ?thesis
    unfolding example_image_run_def
    by (simp add: convertImage_success_run(1)
          [OF no_send_errors_initial m example_image_adapter_result]
          compression_ratio_growth_lengths ImageController_storeForDownload_def Let_def
          string_of_int_example)
qed

lemma example_pdf_run_result:
  "fst example_pdf_run =
     Inr \<lparr>pdf_downloadUrl = ''/api/convert/download/compressed_1700000000000.pdf'',
          pdf_originalSize = 4, compressedSize = 5, pdf_compressionRatio = ''-25.0%''\<rparr>"
proof -
  have l: "pdf_load example_pdf_lib [0x25, 0x50, 0x44, 0x46] = Inr 10"
    by (simp add: example_pdf_lib_def)
  show ?thesis
    unfolding example_pdf_run_def
    by (simp add: compressPDF_success_run(1)
          [OF no_send_errors_initial l example_pdf_adapter_result]
          compression_ratio_growth_lengths PDFController_storeForDownload_def Let_def
          string_of_int_example)
qed

lemma example_pdf_run_events: "published (snd example_pdf_run) = pdf_success_events 10"
proof -
  have l: "pdf_load example_pdf_lib [0x25, 0x50, 0x44, 0x46] = Inr 10"
    by (simp add: example_pdf_lib_def)
  have "new_events initial_world (snd example_pdf_run) = pdf_success_events 10"
    unfolding example_pdf_run_def
    by (rule compressPDF_success_run(2) [OF no_send_errors_initial l example_pdf_adapter_result])
  then show ?thesis by (simp add: new_events_def initial_world_def)
qed

lemma upt_10: "[0..<10] = [0, 1, 2, 3, 4, 5, 6, 7, 8, 9]"
  by code_simp

lemma pdf_events_10:
  "length (pdf_success_events 10) = 20"
  "pdf_success_events 10 ! 0 = \<lparr>progress = 10, message = ''Analyzing PDF...'', error = None\<rparr>"
  "pdf_success_events 10 ! 14 = page_event 10 9"
  "pdf_success_events 10 ! 15 = relayed 20 (7 / 10) 85 ''Applying document optimizations...''"
  "pdf_success_events 10 ! 19
     = \<lparr>progress = 100, message = ''Compression completed!'', error = None\<rparr>"
  by (simp_all add: pdf_success_events_def upt_10)

lemma page_10_message: "message (page_event 10 9) = ''Processing page 10 of 10...''"
  by (simp add: page_event_def string_of_nat.simps digit_char_def)

lemma progress_after_last_page:
  "js_add 20 (js_mul 85 (fl (7 / 10)))
     < js_add 20 (js_mul (js_add 50 (js_mul (js_div 9 10) 40)) (fl (7 / 10)))"
  by code_simp

lemma image_progress_values:
  "map progress image_success_events = [10, 30, 36, 48, 66, 84, 90, 90, 100]"
proof -
  have "js_add 30 (js_mul 10 (fl (6 / 10))) = 36" "js_add 30 (js_mul 30 (fl (6 / 10))) = 48"
    "js_add 30 (js_mul 60 (fl (6 / 10))) = 66" "js_add 30 (js_mul 90 (fl (6 / 10))) = 84"
    "js_add 30 (js_mul 100 (fl (6 / 10))) = 90"
    by code_simp+
  then show ?thesis by (simp add: image_success_events_def relayed_def)
qed

text \<open>
  C2. A PDF of ten pages is compressed without any error (level \<open>medium\<close>, no listener
  failing). The run returns a result and publishes twenty events, the first with percent
  10 and the last with percent 100. The event for the last page, \<open>Processing page 10 of
  10...\<close>, carries \<open>20 + (50 + 9/10 * 40) * 0.7\<close>, about 80.2; the event after it,
  \<open>Applying document optimizations...\<close>, carries \<open>20 + 85 * 0.7\<close>, about 79.5. The
  percentages of this successful run are therefore not non-decreasing.
\<close>

theorem pdf_progress_drops_after_last_page:
  "fst example_pdf_run =
     Inr \<lparr>pdf_downloadUrl = ''/api/convert/download/compressed_1700000000000.pdf'',
          pdf_originalSize = 4, compressedSize = 5, pdf_compressionRatio = ''-25.0%''\<rparr>
   \<and> length (published (snd example_pdf_run)) = 20
   \<and> progress (published (snd example_pdf_run) ! 0) = 10
   \<and> progress (published (snd example_pdf_run) ! 19) = 100
   \<and> message (published (snd example_pdf_run) ! 14) = ''Processing page 10 of 10...''
   \<and> message (published (snd example_pdf_run) ! 15) = ''Applying document optimizations...''
   \<and> progress (published (snd example_pdf_run) ! 15)
       < progress (published (snd example_pdf_run) ! 14)
   \<and> \<not> sorted (map progress (published (snd example_pdf_run)))"
proof -
  have drop: "progress (pdf_success_events 10 ! 15) < progress (pdf_success_events 10 ! 14)"
    using progress_after_last_page by (simp add: pdf_events_10 relayed_def page_event_def)
  have "\<not> sorted (map progress (pdf_success_events 10))"
  proof
    assume "sorted (map progress (pdf_success_events 10))"
    then have "map progress (pdf_success_events 10) ! 14 \<le> map progress (pdf_success_events 10) ! 15"
      by (rule sorted_nth_mono) (simp_all add: pdf_events_10)
    with drop show False by (simp add: pdf_events_10(1))
  qed
  with drop show ?thesis
    by (simp add: example_pdf_run_result example_pdf_run_events)
       (simp add: pdf_events_10 page_10_message relayed_def)
qed

theorem sizes_and_ratio_of_successful_conversion_witness:
  "fst example_image_run =
     Inr \<lparr>downloadUrl = ''/api/convert/download/converted_1700000000000.jpg'',
          outputFormat = ''jpg'', originalSize = 4, convertedSize = 5,
          compressionRatio = ''-25.0%''\<rparr>
   \<and> [0xFF, 0xD8, 0xFF, 0xE0 :: byte] \<noteq> []
   \<and> fst example_pdf_run =
     Inr \<lparr>pdf_downloadUrl = ''/api/convert/download/compressed_1700000000000.pdf'',
          pdf_originalSize = 4, compressedSize = 5, pdf_compressionRatio = ''-25.0%''\<rparr>
   \<and> [0x25, 0x50, 0x44, 0x46 :: byte] \<noteq> []
   \<and> ratio_reports 4 5 ''-25.0%''"
proof -
  let ?res = "\<lparr>downloadUrl = ''/api/convert/download/converted_1700000000000.jpg'',
                outputFormat = ''jpg'', originalSize = 4, convertedSize = 5,
                compressionRatio = ''-25.0%''\<rparr>"
  let ?pres = "\<lparr>pdf_downloadUrl = ''/api/convert/download/compressed_1700000000000.pdf'',
                pdf_originalSize = 4, compressedSize = 5, pdf_compressionRatio = ''-25.0%''\<rparr>"
  have ri: "fst (ImageController_convertImage example_runtime example_sharp
       1700000000000 1700000000000 1700000000000 [0xFF, 0xD8, 0xFF, 0xE0] ''jpg'' ''high''
       initial_world) = Inr ?res \<and> [0xFF, 0xD8, 0xFF, 0xE0 :: byte] \<noteq> []"
    using example_image_run_result unfolding example_image_run_def by simp
  have rp: "fst (PDFController_compressPDF example_pdf_lib
       1700000000000 1700000000000 1700000000000 [0x25, 0x50, 0x44, 0x46] ''medium''
       initial_world) = Inr ?pres \<and> [0x25, 0x50, 0x44, 0x46 :: byte] \<noteq> []"
    using example_pdf_run_result unfolding example_pdf_run_def by simp
  have "ratio_reports (originalSize ?res) (convertedSize ?res) (compressionRatio ?res)"
    using sizes_and_ratio_of_successful_conversion [THEN conjunct1, rule_format, OF ri]
    by blast
  then have i: "ratio_reports 4 5 ''-25.0%''" by simp
  have "ratio_reports (pdf_originalSize ?pres) (compressedSize ?pres) (pdf_compressionRatio ?pres)"
    using sizes_and_ratio_of_successful_conversion [THEN conjunct2, rule_format, OF rp]
    by blast
  then have p: "ratio_reports 4 5 ''-25.0%''" by simp
  from i p example_image_run_result example_pdf_run_result show ?thesis by simp
qed

end
